theory Spec2Isabelle
  imports Main "HOL-Library.Sublist"
begin

section \<open>Python values\<close>

text \<open>
  The client (\<^verbatim>\<open>pynessus/nessus.py\<close>) handles the values that \<^verbatim>\<open>json.loads\<close>
  returns: \<^verbatim>\<open>None\<close>, booleans, numbers, strings, lists and dicts. Numbers are
  restricted to integers. A dict is an association list that names each key once, in
  iteration order; a lookup takes the first binding of a key.
\<close>

datatype json =
    JNull
  | JBool bool
  | JNum int
  | JStr string
  | JArr "json list"
  | JObj "(string \<times> json) list"

text \<open>The exceptions that the modelled code raises or lets through.\<close>

datatype exn =
    CannotSendRequest
  | ImproperConnectionState
  | SocketError int
  | Exception json
  | NessusAPIError json
  | KeyError json
  | TypeError
  | IndexError
  | AttributeError
  | ValueError

text \<open>Sequencing of computations that may raise: the first exception wins.\<close>

definition bindE :: "exn + 'a \<Rightarrow> ('a \<Rightarrow> exn + 'b) \<Rightarrow> exn + 'b" where
  "bindE m f = (case m of Inl e \<Rightarrow> Inl e | Inr v \<Rightarrow> f v)"

text \<open>Truth value of a Python value (\<^verbatim>\<open>if not params\<close>).\<close>

fun py_truthy :: "json \<Rightarrow> bool" where
  "py_truthy JNull = False"
| "py_truthy (JBool b) = b"
| "py_truthy (JNum n) = (n \<noteq> 0)"
| "py_truthy (JStr s) = (s \<noteq> [])"
| "py_truthy (JArr xs) = (xs \<noteq> [])"
| "py_truthy (JObj kvs) = (kvs \<noteq> [])"

text \<open>Substring test on strings (\<^verbatim>\<open>a in b\<close> for two strings).\<close>

fun starts_with :: "string \<Rightarrow> string \<Rightarrow> bool" where
  "starts_with [] s = True"
| "starts_with (c # cs) [] = False"
| "starts_with (c # cs) (d # ds) = (c = d \<and> starts_with cs ds)"

fun contains :: "string \<Rightarrow> string \<Rightarrow> bool" where
  "contains sub [] = (sub = [])"
| "contains sub (d # ds) = (starts_with sub (d # ds) \<or> contains sub ds)"

text \<open>
  Python's \<^verbatim>\<open>==\<close> on these values: \<^verbatim>\<open>True == 1\<close> and \<^verbatim>\<open>False == 0\<close>,
  lists elementwise, dicts key by key.
\<close>

fun py_eq :: "json \<Rightarrow> json \<Rightarrow> bool"
  and py_eq_list :: "json list \<Rightarrow> json list \<Rightarrow> bool"
  and py_sub_dict :: "(string \<times> json) list \<Rightarrow> (string \<times> json) list \<Rightarrow> bool"
  and py_eq_opt :: "json \<Rightarrow> json option \<Rightarrow> bool" where
  "py_eq JNull b = (b = JNull)"
| "py_eq (JBool x) b =
     (case b of JBool y \<Rightarrow> x = y | JNum n \<Rightarrow> n = (if x then 1 else 0) | _ \<Rightarrow> False)"
| "py_eq (JNum m) b =
     (case b of JBool y \<Rightarrow> m = (if y then 1 else 0) | JNum n \<Rightarrow> m = n | _ \<Rightarrow> False)"
| "py_eq (JStr s) b = (b = JStr s)"
| "py_eq (JArr xs) b = (case b of JArr ys \<Rightarrow> py_eq_list xs ys | _ \<Rightarrow> False)"
| "py_eq (JObj kvs) b =
     (case b of JObj kws \<Rightarrow> length kvs = length kws \<and> py_sub_dict kvs kws | _ \<Rightarrow> False)"
| "py_eq_list [] ys = (ys = [])"
| "py_eq_list (x # xs) ys = (case ys of [] \<Rightarrow> False | y # ys' \<Rightarrow> py_eq x y \<and> py_eq_list xs ys')"
| "py_sub_dict [] kws = True"
| "py_sub_dict ((k, v) # kvs) kws = (py_eq_opt v (map_of kws k) \<and> py_sub_dict kvs kws)"
| "py_eq_opt v None = False"
| "py_eq_opt v (Some w) = py_eq v w"

text \<open>
  \<^verbatim>\<open>key in value\<close> for a string key: membership in a dict's keys, in a list's
  elements, a substring test on a string, \<^verbatim>\<open>TypeError\<close> elsewhere.
\<close>

fun py_in :: "string \<Rightarrow> json \<Rightarrow> exn + bool" where
  "py_in k (JObj kvs) = Inr (map_of kvs k \<noteq> None)"
| "py_in k (JArr xs) = Inr (list_ex (py_eq (JStr k)) xs)"
| "py_in k (JStr s) = Inr (contains k s)"
| "py_in k v = Inl TypeError"

text \<open>\<^verbatim>\<open>value[key]\<close> for a string key: only a dict has string keys.\<close>

fun py_getitem :: "json \<Rightarrow> string \<Rightarrow> exn + json" where
  "py_getitem (JObj kvs) k = (case map_of kvs k of None \<Rightarrow> Inl (KeyError (JStr k)) | Some v \<Rightarrow> Inr v)"
| "py_getitem v k = Inl TypeError"

text \<open>\<^verbatim>\<open>value[0]\<close>.\<close>

fun py_index0 :: "json \<Rightarrow> exn + json" where
  "py_index0 (JStr []) = Inl IndexError"
| "py_index0 (JStr (c # cs)) = Inr (JStr [c])"
| "py_index0 (JArr []) = Inl IndexError"
| "py_index0 (JArr (x # xs)) = Inr x"
| "py_index0 (JObj kvs) = Inl (KeyError (JNum 0))"
| "py_index0 v = Inl TypeError"

text \<open>The elements that \<^verbatim>\<open>for x in value\<close> visits.\<close>

fun py_iter :: "json \<Rightarrow> exn + json list" where
  "py_iter (JArr xs) = Inr xs"
| "py_iter (JObj kvs) = Inr (map (\<lambda>kv. JStr (fst kv)) kvs)"
| "py_iter (JStr s) = Inr (map (\<lambda>c. JStr [c]) s)"
| "py_iter v = Inl TypeError"

text \<open>Decimal digits, for the \<^verbatim>\<open>%d\<close> conversion.\<close>

function dec_nat :: "nat \<Rightarrow> string" where
  "dec_nat n = (if n < 10 then [char_of (48 + n)] else dec_nat (n div 10) @ [char_of (48 + n mod 10)])"
  by pat_completeness auto
termination
  by (relation "measure id") auto

declare dec_nat.simps [simp del]

definition dec_int :: "int \<Rightarrow> string" where
  "dec_int i = (if i < 0 then CHR ''-'' # dec_nat (nat (- i)) else dec_nat (nat i))"

fun py_format_d :: "json \<Rightarrow> exn + string" where
  "py_format_d (JNum n) = Inr (dec_int n)"
| "py_format_d (JBool b) = Inr (if b then ''1'' else ''0'')"
| "py_format_d v = Inl TypeError"

section \<open>Resource instances\<close>

text \<open>
  The model classes live in \<^verbatim>\<open>pynessus/models\<close>; the client only assigns their
  attributes. Each class is a record of the attributes that the client assigns, holding the
  values taken from the response.
\<close>

record scanner =
  scanner_id :: json
  scanner_uuid :: json
  scanner_name :: json
  scanner_type :: json
  scanner_status :: json
  scanner_scan_count :: json
  scanner_engine_version :: json
  scanner_platform :: json
  scanner_loaded_plugin_set :: json
  scanner_registration_code :: json
  scanner_owner :: json

record agent =
  agent_distros :: json
  agent_id :: json
  agent_ip :: json
  agent_last_scanned :: json
  agent_name :: json
  agent_platform :: json
  agent_token :: json
  agent_uuid :: json
  agent_scanner_id :: json

record agentgroup =
  agentgroup_id :: json
  agentgroup_name :: json
  agentgroup_owner_id :: json
  agentgroup_owner :: json
  agentgroup_shared :: json
  agentgroup_user_permissions :: json
  agentgroup_creation_date :: json
  agentgroup_last_modification_date :: json

record policy =
  policy_id :: json
  policy_template_uuid :: json
  policy_name :: json
  policy_owner :: json
  policy_creation_date :: json
  policy_no_target :: json
  policy_visibility :: json
  policy_shared :: json
  policy_user_permissions :: json
  policy_last_modification_date :: json

record template =
  template_uuid :: json
  template_title :: json
  template_name :: json
  template_description :: json
  template_more_info :: json
  template_cloud_only :: json
  template_subscription_only :: json

record folder =
  folder_id :: json
  folder_type :: json
  folder_custom :: json
  folder_default_tag :: json
  folder_name :: json
  folder_unread_count :: json

record user =
  user_username :: json
  user_password :: json
  user_token :: json
  user_last_login :: json
  user_permissions :: json
  user_type :: json
  user_name :: json
  user_id :: json

text \<open>
  A scan refers to other instances: its template, its folder and its owner. The owner is
  assigned only when a loaded user matches; \<open>None\<close> is the attribute left as the
  constructor made it.
\<close>

record scan =
  scan_status :: json
  scan_name :: json
  scan_read :: json
  scan_last_modification_date :: json
  scan_creation_date :: json
  scan_user_permissions :: json
  scan_shared :: json
  scan_id :: json
  scan_template :: template
  scan_folder :: folder
  scan_owner :: "user option"

text \<open>Mail and proxy settings are attribute bags that this module never looks into.\<close>

type_synonym mail = "(string \<times> json) list"

type_synonym proxy = "(string \<times> json) list"

section \<open>The transport\<close>

text \<open>
  \<^verbatim>\<open>httplib\<close> is outside the repository. A connection is modelled by what the client
  can observe of it: every call of \<^verbatim>\<open>connection.request\<close> is recorded and either
  succeeds or raises, and every call of \<^verbatim>\<open>connection.getresponse\<close> yields a status
  and a body or raises. The outcomes are given by two scripts, indexed by the number of
  calls made so far, so that the theorems hold for every behaviour of the server.
\<close>

datatype send_outcome =
    SendOk
  | RaiseCannotSendRequest
  | RaiseImproperConnectionState
  | RaiseSocketError int

datatype get_outcome =
    Response nat string
  | GetRaises exn

record http_request =
  req_method :: string
  req_target :: string
  req_body :: json
  req_headers :: "string \<rightharpoonup> string"

record conn =
  conn_host :: string
  conn_port :: int
  conn_unverified :: bool

definition HTTPSConnection :: "string \<Rightarrow> int \<Rightarrow> bool \<Rightarrow> conn" where
  "HTTPSConnection host p unverified =
     \<lparr>conn_host = host, conn_port = p, conn_unverified = unverified\<rparr>"

definition ECONNREFUSED :: int where
  "ECONNREFUSED = 111"

section \<open>The client\<close>

text \<open>
  The attributes of a \<^verbatim>\<open>Nessus\<close> instance, followed by the transport's scripts, the
  requests made so far and the number of responses read so far. The collections whose
  property compares them with \<^verbatim>\<open>None\<close> are optional lists.
\<close>

record nessus =
  url :: string
  port :: int
  verify :: bool
  connection :: "conn option"
  headers :: "string \<rightharpoonup> string"
  user :: "user option"
  server_version :: json
  uuid :: json
  loaded_plugin_set :: json
  expiration :: json
  nessus_ui_version :: json
  nessus_type :: json
  notifications :: "json list"
  capabilities :: json
  plugin_set :: json
  idle_timeout :: json
  scanner_boottime :: json
  mail :: "mail option"
  proxy :: "proxy option"
  agents :: "agent list option"
  agentgroups :: "agentgroup list option"
  policies :: "policy list option"
  templates :: "template list"
  scans :: "scan list option"
  folders :: "folder list"
  users :: "user list option"
  scanners :: "scanner list"
  send_script :: "nat \<Rightarrow> send_outcome"
  recv_script :: "nat \<Rightarrow> get_outcome"
  sent :: "http_request list"
  received :: nat

text \<open>
  A call either does not return within the recursion depth given to it (\<open>None\<close>), or
  raises (\<open>Inl\<close>) or returns a value (\<open>Inr\<close>), in both cases with the state it leaves.
\<close>

type_synonym 'a result = "((exn + 'a) \<times> nessus) option"

text \<open>
  What the module uses and the repository's sources do not contain: the \<^verbatim>\<open>json\<close>
  library, \<^verbatim>\<open>%s\<close> formatting, the constructors of \<^verbatim>\<open>Template\<close>,
  \<^verbatim>\<open>Folder\<close>, \<^verbatim>\<open>User\<close>, \<^verbatim>\<open>Mail\<close> and \<^verbatim>\<open>Proxy\<close>, and the
  \<^verbatim>\<open>load\<close> methods of \<^verbatim>\<open>Mail\<close> and \<^verbatim>\<open>Proxy\<close>. They are parameters.
\<close>

record ext =
  json_dumps :: "json \<Rightarrow> string"
  json_loads :: "string \<Rightarrow> json option"
  format_s :: "json \<Rightarrow> string"
  new_Template :: template
  new_Folder :: folder
  new_User :: user
  new_Mail :: mail
  new_Proxy :: proxy
  Mail_load :: "nessus \<Rightarrow> bool result"
  Proxy_load :: "nessus \<Rightarrow> bool result"

text \<open>\<^verbatim>\<open>Nessus.__init__\<close>, with a transport that follows the two scripts.\<close>

definition init :: "string \<Rightarrow> int \<Rightarrow> bool \<Rightarrow> (nat \<Rightarrow> send_outcome) \<Rightarrow> (nat \<Rightarrow> get_outcome) \<Rightarrow> nessus" where
  "init u p v sends recvs =
     \<lparr>url = u, port = p, verify = v,
      connection = None,
      headers = [''Content-type'' \<mapsto> ''application/json'', ''Accept'' \<mapsto> ''application/json''],
      user = None,
      server_version = JNull,
      uuid = JNum 0,
      loaded_plugin_set = JNull,
      expiration = JNull,
      nessus_ui_version = JNull,
      nessus_type = JNull,
      notifications = [],
      capabilities = JNull,
      plugin_set = JNull,
      idle_timeout = JNull,
      scanner_boottime = JNull,
      mail = None,
      proxy = None,
      agents = Some [],
      agentgroups = Some [],
      policies = Some [],
      templates = [],
      scans = Some [],
      folders = [],
      users = Some [],
      scanners = [],
      send_script = sends,
      recv_script = recvs,
      sent = [],
      received = 0\<rparr>"

section \<open>Requests and the session\<close>

definition returns :: "'a \<Rightarrow> nessus \<Rightarrow> 'a result" where
  "returns v s = Some (Inr v, s)"

definition raises :: "exn \<Rightarrow> nessus \<Rightarrow> 'a result" where
  "raises e s = Some (Inl e, s)"

definition bindR :: "'a result \<Rightarrow> ('a \<Rightarrow> nessus \<Rightarrow> 'b result) \<Rightarrow> 'b result" where
  "bindR m f =
     (case m of
        None \<Rightarrow> None
      | Some (Inl e, s) \<Rightarrow> Some (Inl e, s)
      | Some (Inr v, s) \<Rightarrow> f v s)"

text \<open>A pure step that may raise, run in a given state.\<close>

definition liftE :: "exn + 'a \<Rightarrow> nessus \<Rightarrow> 'a result" where
  "liftE m s = (case m of Inl e \<Rightarrow> Some (Inl e, s) | Inr v \<Rightarrow> Some (Inr v, s))"

text \<open>
  The end of \<^verbatim>\<open>_request\<close>: read the next response; status 200 returns the body, any
  other status raises \<^verbatim>\<open>Exception(body)\<close>.
\<close>

definition getresponse :: "nessus \<Rightarrow> string result" where
  "getresponse s =
     (let s' = s\<lparr>received := received s + 1\<rparr>
      in case recv_script s (received s) of
           GetRaises e \<Rightarrow> raises e s'
         | Response status body \<Rightarrow>
             if status = 200 then returns body s' else raises (Exception (JStr body)) s')"

text \<open>
  \<^verbatim>\<open>_request\<close>, \<^verbatim>\<open>login\<close> and the \<^verbatim>\<open>server_version\<close> property call each
  other. The functions below take \<^verbatim>\<open>_request\<close> as an argument \<open>req\<close>;
  \<open>request\<close> then closes the recursion.
\<close>

type_synonym requester =
  "string \<Rightarrow> string \<Rightarrow> json \<Rightarrow> (string \<rightharpoonup> string) option \<Rightarrow> nessus \<Rightarrow> string result"

definition api_request_with :: "ext \<Rightarrow> requester \<Rightarrow> string \<Rightarrow> string \<Rightarrow> json \<Rightarrow> nessus \<Rightarrow> json result" where
  "api_request_with E req method target params s =
     (let params' = (if \<not> py_truthy params then JObj [] else params)
      in bindR (req method target (JStr (json_dumps E params')) None s) (\<lambda>raw_response s1.
           if raw_response \<noteq> [] then
             (case json_loads E raw_response of
                None \<Rightarrow> raises ValueError s1
              | Some response \<Rightarrow>
                  if response \<noteq> JNull then
                    bindR (liftE (py_in ''error'' response) s1) (\<lambda>has_error s2.
                      if has_error then
                        bindR (liftE (py_getitem response ''error'') s2) (\<lambda>msg s3.
                          raises (NessusAPIError msg) s3)
                      else returns response s2)
                  else returns response s1)
           else returns JNull s1))"

text \<open>
  The \<^verbatim>\<open>server_version\<close> property. \<^verbatim>\<open>_request\<close> returns a string, never
  \<^verbatim>\<open>None\<close>, so the second probe yields \<^verbatim>\<open>"5.x"\<close> whenever it returns.
\<close>

definition server_version_with :: "requester \<Rightarrow> nessus \<Rightarrow> json result" where
  "server_version_with req s =
     (if server_version s = JNull then
        bindR (req ''GET'' ''/nessus6.html'' (JStr []) None s) (\<lambda>body s1.
          if \<not> contains ''404 File not found'' body then
            returns (JStr ''6.x'') (s1\<lparr>server_version := JStr ''6.x''\<rparr>)
          else
            bindR (req ''GET'' ''/html5.html'' (JStr []) None s1) (\<lambda>body2 s2.
              returns (JStr ''5.x'') (s2\<lparr>server_version := JStr ''5.x''\<rparr>)))
      else returns (server_version s) s)"

definition unsupported_message :: string where
  "unsupported_message =
     ''This version of Nessus is not supported by pynessus. '' @ [CHR 0x0A] @
     ''If you absolutely need to use pynessus with Nessus 5.x, please follow the instructions'' @
     ''available on the git repository (https://github.com/qkaiser/pynessus)''"

definition cannot_connect_message :: "nessus \<Rightarrow> string" where
  "cannot_connect_message s = ''Can't connect to Nessus at https://'' @ url s @ '':'' @ dec_int (port s)"

definition login_with :: "ext \<Rightarrow> requester \<Rightarrow> user option \<Rightarrow> nessus \<Rightarrow> bool result" where
  "login_with E req usr s =
     bindR (server_version_with req s) (\<lambda>version s1.
       bindR (liftE (py_index0 version) s1) (\<lambda>major s2.
         if \<not> py_eq major (JStr ''6'') then raises (Exception (JStr unsupported_message)) s2
         else
           (case usr of
              None \<Rightarrow> raises AttributeError s2
            | Some u \<Rightarrow>
                bindR (api_request_with E req ''POST'' ''/session''
                         (JObj [(''username'', user_username u), (''password'', user_password u)]) s2)
                  (\<lambda>response s3.
                     if response \<noteq> JNull then
                       bindR (liftE (py_in ''status'' response) s3) (\<lambda>has_status s4.
                         if has_status then
                           bindR (liftE (py_getitem response ''status'') s4) (\<lambda>status s5.
                             raises (Exception status) s5)
                         else
                           bindR (liftE (py_getitem response ''token'') (s4\<lparr>user := Some u\<rparr>)) (\<lambda>tok s5.
                             returns True
                               (s5\<lparr>user := Some (u\<lparr>user_token := tok\<rparr>),
                                   headers := (headers s5)(''X-Cookie'' \<mapsto> ''token='' @ format_s E tok)\<rparr>)))
                     else returns False s3))))"

text \<open>
  \<^verbatim>\<open>_request\<close>. The first argument bounds the depth of the recursion through the two
  \<^verbatim>\<open>except\<close> branches. Every call of \<^verbatim>\<open>connection.request\<close> is recorded in
  \<open>sent\<close>, with the headers it was given.
\<close>

fun request :: "ext \<Rightarrow> nat \<Rightarrow> string \<Rightarrow> string \<Rightarrow> json \<Rightarrow> (string \<rightharpoonup> string) option \<Rightarrow> nessus \<Rightarrow> string result" where
  "request E 0 method target params hdrs s = None"
| "request E (Suc k) method target params hdrs s =
     (let s1 = (if connection s = None
                then s\<lparr>connection := Some (HTTPSConnection (url s) (port s) (\<not> verify s))\<rparr>
                else s);
          s2 = s1\<lparr>sent := sent s1 @
                 [\<lparr>req_method = method, req_target = target, req_body = params,
                   req_headers = (case hdrs of None \<Rightarrow> headers s1 | Some h \<Rightarrow> h)\<rparr>]\<rparr>;
          recover = (\<lambda>s2.
            let s3 = s2\<lparr>connection := Some (HTTPSConnection (url s2) (port s2) False)\<rparr>
            in bindR (login_with E (request E k) (user s3) s3) (\<lambda>logged_in s4.
                 bindR (request E k method target params (Some (headers s4)) s4) (\<lambda>retried s5.
                   getresponse s5)))
      in case send_script s (length (sent s)) of
           SendOk \<Rightarrow> getresponse s2
         | RaiseCannotSendRequest \<Rightarrow> recover s2
         | RaiseImproperConnectionState \<Rightarrow> recover s2
         | RaiseSocketError n \<Rightarrow>
             if n \<noteq> ECONNREFUSED then raises (SocketError n) s2
             else raises (Exception (JStr (cannot_connect_message s2))) s2)"

definition api_request :: "ext \<Rightarrow> nat \<Rightarrow> string \<Rightarrow> string \<Rightarrow> json \<Rightarrow> nessus \<Rightarrow> json result" where
  "api_request E k = api_request_with E (request E k)"

definition server_version_property :: "ext \<Rightarrow> nat \<Rightarrow> nessus \<Rightarrow> json result" where
  "server_version_property E k = server_version_with (request E k)"

definition login :: "ext \<Rightarrow> nat \<Rightarrow> user option \<Rightarrow> nessus \<Rightarrow> bool result" where
  "login E k = login_with E (request E k)"

definition logout :: "ext \<Rightarrow> nat \<Rightarrow> nessus \<Rightarrow> bool result" where
  "logout E k s =
     bindR (request E k ''DELETE'' ''/session'' (JArr []) None s) (\<lambda>body s1. returns True s1)"

section \<open>Loading the collections\<close>

text \<open>A \<^verbatim>\<open>for\<close> loop whose body may raise: the first exception ends it.\<close>

fun for_each :: "('a \<Rightarrow> nessus \<Rightarrow> unit result) \<Rightarrow> 'a list \<Rightarrow> nessus \<Rightarrow> unit result" where
  "for_each body [] s = returns () s"
| "for_each body (x # xs) s = bindR (body x s) (\<lambda>u s1. for_each body xs s1)"

text \<open>\<^verbatim>\<open>key in response and response[key] is not None\<close>.\<close>

definition present_not_none :: "string \<Rightarrow> json \<Rightarrow> exn + bool" where
  "present_not_none k response =
     bindE (py_in k response) (\<lambda>present.
       if present then bindE (py_getitem response k) (\<lambda>v. Inr (v \<noteq> JNull)) else Inr False)"

text \<open>\<^verbatim>\<open>record[key] if key in record else default\<close>.\<close>

definition get_or_default :: "json \<Rightarrow> string \<Rightarrow> json \<Rightarrow> exn + json" where
  "get_or_default r k d =
     bindE (py_in k r) (\<lambda>present. if present then py_getitem r k else Inr d)"

subsection \<open>Scanners\<close>

definition hydrate_scanner :: "json \<Rightarrow> exn + scanner" where
  "hydrate_scanner r =
     bindE (py_getitem r ''id'') (\<lambda>v1.
     bindE (py_getitem r ''uuid'') (\<lambda>v2.
     bindE (py_getitem r ''name'') (\<lambda>v3.
     bindE (py_getitem r ''type'') (\<lambda>v4.
     bindE (py_getitem r ''status'') (\<lambda>v5.
     bindE (py_getitem r ''scan_count'') (\<lambda>v6.
     bindE (py_getitem r ''engine_version'') (\<lambda>v7.
     bindE (py_getitem r ''platform'') (\<lambda>v8.
     bindE (py_getitem r ''loaded_plugin_set'') (\<lambda>v9.
     bindE (py_getitem r ''registration_code'') (\<lambda>v10.
     bindE (py_getitem r ''owner'') (\<lambda>v11.
       Inr \<lparr>scanner_id = v1, scanner_uuid = v2, scanner_name = v3, scanner_type = v4,
            scanner_status = v5, scanner_scan_count = v6, scanner_engine_version = v7,
            scanner_platform = v8, scanner_loaded_plugin_set = v9,
            scanner_registration_code = v10, scanner_owner = v11\<rparr>)))))))))))"

definition add_scanner :: "json \<Rightarrow> nessus \<Rightarrow> unit result" where
  "add_scanner r s =
     bindR (liftE (hydrate_scanner r) s) (\<lambda>x s1. returns () (s1\<lparr>scanners := scanners s1 @ [x]\<rparr>))"

definition load_scanners :: "ext \<Rightarrow> nat \<Rightarrow> nessus \<Rightarrow> bool result" where
  "load_scanners E k s =
     bindR (api_request E k ''GET'' ''/scanners'' JNull s) (\<lambda>response s1.
       bindR (liftE (py_in ''scanners'' response) s1) (\<lambda>present s2.
         if present then
           bindR (liftE (bindE (py_getitem response ''scanners'') py_iter) s2) (\<lambda>rs s3.
             bindR (for_each add_scanner rs s3) (\<lambda>u s4. returns True s4))
         else returns True s2))"

subsection \<open>Agents and agent groups, fetched scanner by scanner\<close>

definition hydrate_agent :: "scanner \<Rightarrow> json \<Rightarrow> exn + agent" where
  "hydrate_agent sc r =
     bindE (py_getitem r ''distros'') (\<lambda>v1.
     bindE (py_getitem r ''id'') (\<lambda>v2.
     bindE (py_getitem r ''ip'') (\<lambda>v3.
     bindE (py_getitem r ''last_scanned'') (\<lambda>v4.
     bindE (py_getitem r ''name'') (\<lambda>v5.
     bindE (py_getitem r ''platform'') (\<lambda>v6.
     bindE (py_getitem r ''token'') (\<lambda>v7.
     bindE (py_getitem r ''uuid'') (\<lambda>v8.
       Inr \<lparr>agent_distros = v1, agent_id = v2, agent_ip = v3, agent_last_scanned = v4,
            agent_name = v5, agent_platform = v6, agent_token = v7, agent_uuid = v8,
            agent_scanner_id = scanner_id sc\<rparr>))))))))"

definition add_agent :: "scanner \<Rightarrow> json \<Rightarrow> nessus \<Rightarrow> unit result" where
  "add_agent sc r s =
     bindR (liftE (hydrate_agent sc r) s) (\<lambda>x s1.
       case agents s1 of
         None \<Rightarrow> raises AttributeError s1
       | Some xs \<Rightarrow> returns () (s1\<lparr>agents := Some (xs @ [x])\<rparr>))"

definition load_agents_of :: "ext \<Rightarrow> nat \<Rightarrow> scanner \<Rightarrow> nessus \<Rightarrow> unit result" where
  "load_agents_of E k sc s =
     bindR (liftE (py_format_d (scanner_id sc)) s) (\<lambda>d s0.
       bindR (api_request E k ''GET'' (''/scanners/'' @ d @ ''/agents'') JNull s0) (\<lambda>response s1.
         bindR (liftE (present_not_none ''agents'' response) s1) (\<lambda>present s2.
           if present then
             bindR (liftE (bindE (py_getitem response ''agents'') py_iter) s2) (\<lambda>rs s3.
               for_each (add_agent sc) rs s3)
           else returns () s2)))"

definition load_agents :: "ext \<Rightarrow> nat \<Rightarrow> nessus \<Rightarrow> bool result" where
  "load_agents E k s =
     bindR (for_each (load_agents_of E k) (scanners s) s) (\<lambda>u s1. returns True s1)"

definition hydrate_agentgroup :: "json \<Rightarrow> exn + agentgroup" where
  "hydrate_agentgroup r =
     bindE (py_getitem r ''id'') (\<lambda>v1.
     bindE (py_getitem r ''name'') (\<lambda>v2.
     bindE (py_getitem r ''owner_id'') (\<lambda>v3.
     bindE (py_getitem r ''owner'') (\<lambda>v4.
     bindE (py_getitem r ''shared'') (\<lambda>v5.
     bindE (py_getitem r ''user_permissions'') (\<lambda>v6.
     bindE (py_getitem r ''creation_date'') (\<lambda>v7.
     bindE (py_getitem r ''last_modification_date'') (\<lambda>v8.
       Inr \<lparr>agentgroup_id = v1, agentgroup_name = v2, agentgroup_owner_id = v3,
            agentgroup_owner = v4, agentgroup_shared = v5, agentgroup_user_permissions = v6,
            agentgroup_creation_date = v7, agentgroup_last_modification_date = v8\<rparr>))))))))"

definition add_agentgroup :: "json \<Rightarrow> nessus \<Rightarrow> unit result" where
  "add_agentgroup r s =
     bindR (liftE (hydrate_agentgroup r) s) (\<lambda>x s1.
       case agentgroups s1 of
         None \<Rightarrow> raises AttributeError s1
       | Some xs \<Rightarrow> returns () (s1\<lparr>agentgroups := Some (xs @ [x])\<rparr>))"

definition load_agentgroups_of :: "ext \<Rightarrow> nat \<Rightarrow> scanner \<Rightarrow> nessus \<Rightarrow> unit result" where
  "load_agentgroups_of E k sc s =
     bindR (liftE (py_format_d (scanner_id sc)) s) (\<lambda>d s0.
       bindR (api_request E k ''GET'' (''/scanners/'' @ d @ ''/agent-groups'') JNull s0) (\<lambda>response s1.
         bindR (liftE (present_not_none ''groups'' response) s1) (\<lambda>present s2.
           if present then
             bindR (liftE (bindE (py_getitem response ''groups'') py_iter) s2) (\<lambda>rs s3.
               for_each add_agentgroup rs s3)
           else returns () s2)))"

definition load_agentgroups :: "ext \<Rightarrow> nat \<Rightarrow> nessus \<Rightarrow> bool result" where
  "load_agentgroups E k s =
     bindR (for_each (load_agentgroups_of E k) (scanners s) s) (\<lambda>u s1. returns True s1)"

subsection \<open>Policies, templates, folders, users\<close>

definition hydrate_policy :: "json \<Rightarrow> exn + policy" where
  "hydrate_policy r =
     bindE (py_getitem r ''id'') (\<lambda>v1.
     bindE (py_getitem r ''template_uuid'') (\<lambda>v2.
     bindE (py_getitem r ''name'') (\<lambda>v3.
     bindE (py_getitem r ''owner'') (\<lambda>v4.
     bindE (py_getitem r ''creation_date'') (\<lambda>v5.
     bindE (get_or_default r ''no_target'' (JBool False)) (\<lambda>v6.
     bindE (py_getitem r ''visibility'') (\<lambda>v7.
     bindE (py_getitem r ''shared'') (\<lambda>v8.
     bindE (py_getitem r ''user_permissions'') (\<lambda>v9.
     bindE (py_getitem r ''last_modification_date'') (\<lambda>v10.
     bindE (py_getitem r ''creation_date'') (\<lambda>v11.
       Inr \<lparr>policy_id = v1, policy_template_uuid = v2, policy_name = v3, policy_owner = v4,
            policy_creation_date = v11, policy_no_target = v6, policy_visibility = v7,
            policy_shared = v8, policy_user_permissions = v9,
            policy_last_modification_date = v10\<rparr>)))))))))))"

definition add_policy :: "json \<Rightarrow> nessus \<Rightarrow> unit result" where
  "add_policy r s =
     bindR (liftE (hydrate_policy r) s) (\<lambda>x s1.
       case policies s1 of
         None \<Rightarrow> raises AttributeError s1
       | Some xs \<Rightarrow> returns () (s1\<lparr>policies := Some (xs @ [x])\<rparr>))"

definition load_policies :: "ext \<Rightarrow> nat \<Rightarrow> nessus \<Rightarrow> bool result" where
  "load_policies E k s =
     bindR (api_request E k ''GET'' ''/policies'' JNull s) (\<lambda>response s1.
       bindR (liftE (present_not_none ''policies'' response) s1) (\<lambda>present s2.
         if present then
           bindR (liftE (bindE (py_getitem response ''policies'') py_iter) (s2\<lparr>policies := Some []\<rparr>))
             (\<lambda>rs s3. bindR (for_each add_policy rs s3) (\<lambda>u s4. returns True s4))
         else returns True s2))"

definition hydrate_template :: "ext \<Rightarrow> json \<Rightarrow> exn + template" where
  "hydrate_template E r =
     bindE (py_getitem r ''uuid'') (\<lambda>v1.
     bindE (py_getitem r ''title'') (\<lambda>v2.
     bindE (py_getitem r ''name'') (\<lambda>v3.
     bindE (py_getitem r ''desc'') (\<lambda>v4.
     bindE (get_or_default r ''more_info'' JNull) (\<lambda>v5.
     bindE (py_getitem r ''cloud_only'') (\<lambda>v6.
     bindE (py_getitem r ''subscription_only'') (\<lambda>v7.
       Inr ((new_Template E)\<lparr>template_uuid := v1, template_title := v2, template_name := v3,
            template_description := v4, template_more_info := v5, template_cloud_only := v6,
            template_subscription_only := v7\<rparr>))))))))"

definition add_template :: "ext \<Rightarrow> json \<Rightarrow> nessus \<Rightarrow> unit result" where
  "add_template E r s =
     bindR (liftE (hydrate_template E r) s) (\<lambda>x s1. returns () (s1\<lparr>templates := templates s1 @ [x]\<rparr>))"

definition load_templates :: "ext \<Rightarrow> nat \<Rightarrow> nessus \<Rightarrow> bool result" where
  "load_templates E k s =
     bindR (api_request E k ''GET'' ''/editor/scan/templates'' (JStr []) s) (\<lambda>response s1.
       bindR (liftE (py_in ''templates'' response) (s1\<lparr>templates := []\<rparr>)) (\<lambda>present s2.
         if present then
           bindR (liftE (bindE (py_getitem response ''templates'') py_iter) s2) (\<lambda>rs s3.
             bindR (for_each (add_template E) rs s3) (\<lambda>u s4. returns True s4))
         else returns True s2))"

definition hydrate_folder :: "ext \<Rightarrow> json \<Rightarrow> exn + folder" where
  "hydrate_folder E r =
     bindE (py_getitem r ''id'') (\<lambda>v1.
     bindE (get_or_default r ''type'' (JStr ''local'')) (\<lambda>v2.
     bindE (py_getitem r ''custom'') (\<lambda>v3.
     bindE (py_getitem r ''default_tag'') (\<lambda>v4.
     bindE (py_getitem r ''name'') (\<lambda>v5.
     bindE (get_or_default r ''unread_count'' (JNum 0)) (\<lambda>v6.
       Inr ((new_Folder E)\<lparr>folder_id := v1, folder_type := v2, folder_custom := v3,
            folder_default_tag := v4, folder_name := v5, folder_unread_count := v6\<rparr>)))))))"

definition add_folder :: "ext \<Rightarrow> json \<Rightarrow> nessus \<Rightarrow> unit result" where
  "add_folder E r s =
     bindR (liftE (hydrate_folder E r) s) (\<lambda>x s1. returns () (s1\<lparr>folders := folders s1 @ [x]\<rparr>))"

definition load_folders :: "ext \<Rightarrow> nat \<Rightarrow> nessus \<Rightarrow> bool result" where
  "load_folders E k s =
     bindR (api_request E k ''GET'' ''/folders'' JNull s) (\<lambda>response s1.
       bindR (liftE (py_in ''folders'' response) s1) (\<lambda>present s2.
         if present then
           bindR (liftE (bindE (py_getitem response ''folders'') py_iter) (s2\<lparr>folders := []\<rparr>))
             (\<lambda>rs s3. bindR (for_each (add_folder E) rs s3) (\<lambda>u s4. returns True s4))
         else returns False s2))"

definition hydrate_user :: "ext \<Rightarrow> json \<Rightarrow> exn + user" where
  "hydrate_user E r =
     bindE (py_getitem r ''lastlogin'') (\<lambda>v1.
     bindE (py_getitem r ''permissions'') (\<lambda>v2.
     bindE (py_getitem r ''type'') (\<lambda>v3.
     bindE (py_getitem r ''name'') (\<lambda>v4.
     bindE (py_getitem r ''username'') (\<lambda>v5.
     bindE (py_getitem r ''id'') (\<lambda>v6.
       Inr ((new_User E)\<lparr>user_last_login := v1, user_permissions := v2, user_type := v3,
            user_name := v4, user_username := v5, user_id := v6\<rparr>)))))))"

text \<open>\<^verbatim>\<open>load_users\<close> fills a local list and stores it once the loop is over.\<close>

fun hydrate_users :: "ext \<Rightarrow> json list \<Rightarrow> user list \<Rightarrow> exn + user list" where
  "hydrate_users E [] acc = Inr acc"
| "hydrate_users E (r # rs) acc = bindE (hydrate_user E r) (\<lambda>x. hydrate_users E rs (acc @ [x]))"

definition load_users :: "ext \<Rightarrow> nat \<Rightarrow> nessus \<Rightarrow> bool result" where
  "load_users E k s =
     bindR (api_request E k ''GET'' ''/users'' JNull s) (\<lambda>response s1.
       bindR (liftE (py_in ''users'' response) s1) (\<lambda>present s2.
         if present then
           bindR (liftE (bindE (bindE (py_getitem response ''users'') py_iter)
                               (\<lambda>rs. hydrate_users E rs [])) s2)
             (\<lambda>us s3. returns True (s3\<lparr>users := Some us\<rparr>))
         else returns False s2))"

text \<open>The \<^verbatim>\<open>users\<close> property: loads only when the attribute is \<^verbatim>\<open>None\<close>.\<close>

definition users_property :: "ext \<Rightarrow> nat \<Rightarrow> nessus \<Rightarrow> user list option result" where
  "users_property E k s =
     (if users s = None then bindR (load_users E k s) (\<lambda>b s1. returns (users s1) s1)
      else returns (users s) s)"

subsection \<open>Scans\<close>

text \<open>
  The inner loop of \<^verbatim>\<open>load_scans\<close>: every user whose id equals the record's
  \<^verbatim>\<open>owner_id\<close> is assigned in turn, so the last match stays.
\<close>

fun resolve_owner :: "user list \<Rightarrow> json \<Rightarrow> user option \<Rightarrow> exn + user option" where
  "resolve_owner [] r owner = Inr owner"
| "resolve_owner (u # us) r owner =
     bindE (py_getitem r ''owner_id'') (\<lambda>oid.
       resolve_owner us r (if py_eq (user_id u) oid then Some u else owner))"

text \<open>
  Modelled from the spec: the constructor of \<^verbatim>\<open>Scan\<close> is in
  \<^verbatim>\<open>models/scan.py\<close>, which is not among the sources; following the spec, a new scan
  has its owner unset. The other attributes are assigned here, in the order of the source.
\<close>

definition hydrate_scan :: "ext \<Rightarrow> json \<Rightarrow> exn + scan" where
  "hydrate_scan E r =
     bindE (py_getitem r ''status'') (\<lambda>v1.
     bindE (py_getitem r ''name'') (\<lambda>v2.
     bindE (py_getitem r ''read'') (\<lambda>v3.
     bindE (py_getitem r ''last_modification_date'') (\<lambda>v4.
     bindE (py_getitem r ''creation_date'') (\<lambda>v5.
     bindE (py_getitem r ''user_permissions'') (\<lambda>v6.
     bindE (py_getitem r ''shared'') (\<lambda>v7.
     bindE (py_getitem r ''id'') (\<lambda>v8.
     bindE (py_getitem r ''uuid'') (\<lambda>v9.
     bindE (py_getitem r ''folder_id'') (\<lambda>v10.
       Inr \<lparr>scan_status = v1, scan_name = v2, scan_read = v3,
            scan_last_modification_date = v4, scan_creation_date = v5,
            scan_user_permissions = v6, scan_shared = v7, scan_id = v8,
            scan_template = (new_Template E)\<lparr>template_uuid := v9\<rparr>,
            scan_folder = (new_Folder E)\<lparr>folder_id := v10\<rparr>,
            scan_owner = None\<rparr>))))))))))"

definition add_scan :: "ext \<Rightarrow> nat \<Rightarrow> json \<Rightarrow> nessus \<Rightarrow> unit result" where
  "add_scan E k r s =
     bindR (liftE (hydrate_scan E r) s) (\<lambda>x s1.
       bindR (users_property E k s1) (\<lambda>us s2.
         case us of
           None \<Rightarrow> raises TypeError s2
         | Some ul \<Rightarrow>
             bindR (liftE (resolve_owner ul r (scan_owner x)) s2) (\<lambda>owner s3.
               case scans s3 of
                 None \<Rightarrow> raises AttributeError s3
               | Some xs \<Rightarrow> returns () (s3\<lparr>scans := Some (xs @ [x\<lparr>scan_owner := owner\<rparr>])\<rparr>))))"

definition load_scans :: "ext \<Rightarrow> nat \<Rightarrow> nessus \<Rightarrow> bool result" where
  "load_scans E k s =
     bindR (api_request E k ''GET'' ''/scans'' (JStr []) s) (\<lambda>response s1.
       bindR (liftE (present_not_none ''scans'' response) (s1\<lparr>scans := Some []\<rparr>)) (\<lambda>present s2.
         if present then
           bindR (liftE (bindE (py_getitem response ''scans'') py_iter) s2) (\<lambda>rs s3.
             bindR (for_each (add_scan E k) rs s3) (\<lambda>u s4. returns True s4))
         else returns True s2))"

subsection \<open>Server properties, mail and proxy settings\<close>

definition load_properties :: "ext \<Rightarrow> nat \<Rightarrow> nessus \<Rightarrow> bool result" where
  "load_properties E k s =
     bindR (api_request E k ''GET'' ''/server/properties?json=1'' (JObj []) s) (\<lambda>response s0.
       if response \<noteq> JNull then
         bindR (liftE (py_getitem response ''loaded_plugin_set'') s0) (\<lambda>v s1.
         bindR (liftE (py_getitem response ''server_uuid'') (s1\<lparr>loaded_plugin_set := v\<rparr>)) (\<lambda>v s2.
         bindR (liftE (py_getitem response ''expiration'') (s2\<lparr>uuid := v\<rparr>)) (\<lambda>v s3.
         bindR (liftE (py_getitem response ''nessus_ui_version'') (s3\<lparr>expiration := v\<rparr>)) (\<lambda>v s4.
         bindR (liftE (py_getitem response ''nessus_type'') (s4\<lparr>nessus_ui_version := v\<rparr>)) (\<lambda>v s5.
         bindR (liftE (bindE (py_getitem response ''notifications'') py_iter)
                  (s5\<lparr>nessus_type := v, notifications := []\<rparr>)) (\<lambda>ns s6.
         bindR (liftE (py_getitem response ''capabilities'') (s6\<lparr>notifications := ns\<rparr>)) (\<lambda>v s7.
         bindR (liftE (py_getitem response ''plugin_set'') (s7\<lparr>capabilities := v\<rparr>)) (\<lambda>v s8.
         bindR (liftE (py_getitem response ''idle_timeout'') (s8\<lparr>plugin_set := v\<rparr>)) (\<lambda>v s9.
         bindR (liftE (py_getitem response ''scanner_boottime'') (s9\<lparr>idle_timeout := v\<rparr>)) (\<lambda>v s10.
         bindR (liftE (py_getitem response ''server_version'') (s10\<lparr>scanner_boottime := v\<rparr>)) (\<lambda>v s11.
           returns True (s11\<lparr>server_version := v\<rparr>))))))))))))
       else returns False s0)"

definition load_mail :: "ext \<Rightarrow> nessus \<Rightarrow> bool result" where
  "load_mail E s = Mail_load E (s\<lparr>mail := Some (new_Mail E)\<rparr>)"

definition load_proxy :: "ext \<Rightarrow> nessus \<Rightarrow> bool result" where
  "load_proxy E s = Proxy_load E (s\<lparr>proxy := Some (new_Proxy E)\<rparr>)"

subsection \<open>Loading everything\<close>

definition load :: "ext \<Rightarrow> nat \<Rightarrow> nessus \<Rightarrow> bool result" where
  "load E k s =
     bindR (load_properties E k s) (\<lambda>b1 s1.
     bindR (load_mail E s1) (\<lambda>b2 s2.
     bindR (load_proxy E s2) (\<lambda>b3 s3.
     bindR (load_scanners E k s3) (\<lambda>b4 s4.
     bindR (load_agents E k s4) (\<lambda>b5 s5.
     bindR (load_agentgroups E k s5) (\<lambda>b6 s6.
     bindR (load_policies E k s6) (\<lambda>b7 s7.
     bindR (load_scans E k s7) (\<lambda>b8 s8.
     bindR (load_folders E k s8) (\<lambda>b9 s9.
     bindR (load_templates E k s9) (\<lambda>b10 s10.
     bindR (load_users E k s10) (\<lambda>b11 s11.
       returns (True \<and> b1 \<and> b2 \<and> b3 \<and> b4 \<and> b5 \<and> b6 \<and> b7 \<and> b8 \<and> b9 \<and> b10 \<and> b11) s11)))))))))))"

subsection \<open>The lazily loading properties\<close>

definition scanners_property :: "ext \<Rightarrow> nat \<Rightarrow> nessus \<Rightarrow> scanner list result" where
  "scanners_property E k s =
     (if length (scanners s) = 0 then bindR (load_scanners E k s) (\<lambda>b s1. returns (scanners s1) s1)
      else returns (scanners s) s)"

definition templates_property :: "ext \<Rightarrow> nat \<Rightarrow> nessus \<Rightarrow> template list result" where
  "templates_property E k s =
     (if length (templates s) = 0 then bindR (load_templates E k s) (\<lambda>b s1. returns (templates s1) s1)
      else returns (templates s) s)"

definition folders_property :: "ext \<Rightarrow> nat \<Rightarrow> nessus \<Rightarrow> folder list result" where
  "folders_property E k s =
     (if length (folders s) = 0 then bindR (load_folders E k s) (\<lambda>b s1. returns (folders s1) s1)
      else returns (folders s) s)"

definition scans_property :: "ext \<Rightarrow> nat \<Rightarrow> nessus \<Rightarrow> scan list option result" where
  "scans_property E k s =
     (if scans s = None then bindR (load_scans E k s) (\<lambda>b s1. returns (scans s1) s1)
      else returns (scans s) s)"

definition policies_property :: "ext \<Rightarrow> nat \<Rightarrow> nessus \<Rightarrow> policy list option result" where
  "policies_property E k s =
     (if policies s = None then bindR (load_policies E k s) (\<lambda>b s1. returns (policies s1) s1)
      else returns (policies s) s)"

definition agents_property :: "ext \<Rightarrow> nat \<Rightarrow> nessus \<Rightarrow> agent list option result" where
  "agents_property E k s =
     (if agents s = None then bindR (load_agents E k s) (\<lambda>b s1. returns (agents s1) s1)
      else returns (agents s) s)"

text \<open>
  All the collections of the registry, for statements that a step leaves them as they
  were.
\<close>

definition collections ::
  "nessus \<Rightarrow> agent list option \<times> agentgroup list option \<times> policy list option \<times> template list \<times>
     scan list option \<times> folder list \<times> user list option \<times> scanner list" where
  "collections s =
     (agents s, agentgroups s, policies s, templates s, scans s, folders s, users s, scanners s)"

section \<open>What a call may change in the session\<close>

text \<open>
  \<^verbatim>\<open>_request\<close> and \<^verbatim>\<open>login\<close> touch the connection, the headers (which only gain
  keys), the current user, the cached server version, the list of requests made and the
  number of responses read, and nothing else.
\<close>

definition session_step :: "nessus \<Rightarrow> nessus \<Rightarrow> bool" where
  "session_step s s' =
     (\<exists>c h u v rest n. s' = s\<lparr>connection := c, headers := h, user := u, server_version := v,
                                sent := sent s @ rest, received := received s + n\<rparr>
                         \<and> dom (headers s) \<subseteq> dom h)"

definition steps :: "requester \<Rightarrow> bool" where
  "steps req = (\<forall>m t p h s r s'. req m t p h s = Some (r, s') \<longrightarrow> session_step s s')"

section \<open>Hydrated scans\<close>

text \<open>The scan that one record yields when the users \<open>us\<close> are loaded.\<close>

definition hydrated_scan :: "ext \<Rightarrow> user list \<Rightarrow> json \<Rightarrow> scan \<Rightarrow> bool" where
  "hydrated_scan E us r y =
     (case hydrate_scan E r of
        Inl e \<Rightarrow> False
      | Inr x \<Rightarrow> (case resolve_owner us r None of
                    Inl e \<Rightarrow> False
                  | Inr ow \<Rightarrow> y = x\<lparr>scan_owner := ow\<rparr>))"

section \<open>A concrete server for the examples\<close>

text \<open>
  The examples run the client against scripted transports. Bodies are short texts, and
  \<open>demo_loads\<close> is the table that parses them.
\<close>

definition script :: "'a list \<Rightarrow> 'a \<Rightarrow> nat \<Rightarrow> 'a" where
  "script xs d n = (if n < length xs then xs ! n else d)"

definition scanner_record :: "int \<Rightarrow> json" where
  "scanner_record i =
     JObj [(''id'', JNum i), (''uuid'', JNull), (''name'', JNull), (''type'', JNull),
           (''status'', JNull), (''scan_count'', JNull), (''engine_version'', JNull),
           (''platform'', JNull), (''loaded_plugin_set'', JNull),
           (''registration_code'', JNull), (''owner'', JNull)]"

definition agent_record :: "int \<Rightarrow> json" where
  "agent_record i =
     JObj [(''distros'', JNull), (''id'', JNum i), (''ip'', JNull), (''last_scanned'', JNull),
           (''name'', JNull), (''platform'', JNull), (''token'', JNull), (''uuid'', JNull)]"

definition user_record :: "int \<Rightarrow> json" where
  "user_record i =
     JObj [(''lastlogin'', JNull), (''permissions'', JNum 128), (''type'', JStr ''local''),
           (''name'', JStr ''admin''), (''username'', JStr ''admin''), (''id'', JNum i)]"

definition scan_record :: "int \<Rightarrow> int \<Rightarrow> int \<Rightarrow> json" where
  "scan_record i fid oid =
     JObj [(''status'', JStr ''completed''), (''name'', JStr ''weekly''), (''read'', JBool True),
           (''last_modification_date'', JNum 0), (''creation_date'', JNum 0),
           (''user_permissions'', JNum 128), (''shared'', JBool False), (''id'', JNum i),
           (''uuid'', JStr ''t-1''), (''folder_id'', JNum fid), (''owner_id'', JNum oid)]"

definition properties_record :: json where
  "properties_record =
     JObj [(''loaded_plugin_set'', JNull), (''server_uuid'', JStr ''u''), (''expiration'', JNull),
           (''nessus_ui_version'', JNull), (''nessus_type'', JNull), (''notifications'', JArr []),
           (''capabilities'', JNull), (''plugin_set'', JNull), (''idle_timeout'', JNull),
           (''scanner_boottime'', JNull), (''server_version'', JStr ''6.5.2'')]"

definition demo_loads :: "string \<Rightarrow> json option" where
  "demo_loads raw =
     (if raw = ''scanners 1'' then Some (JObj [(''scanners'', JArr [scanner_record 1])])
      else if raw = ''scanners 2'' then Some (JObj [(''scanners'', JArr [scanner_record 2])])
      else if raw = ''scanners 1 2'' then
        Some (JObj [(''scanners'', JArr [scanner_record 1, scanner_record 2])])
      else if raw = ''no scanners'' then Some (JObj [(''scanners'', JArr [])])
      else if raw = ''agents 10'' then Some (JObj [(''agents'', JArr [agent_record 10])])
      else if raw = ''users 7'' then Some (JObj [(''users'', JArr [user_record 7])])
      else if raw = ''no users'' then Some (JObj [(''users'', JArr [])])
      else if raw = ''scans 1'' then Some (JObj [(''scans'', JArr [scan_record 1 3 7])])
      else if raw = ''no folders'' then Some (JObj [(''folders'', JArr [])])
      else if raw = ''properties'' then Some properties_record
      else if raw = ''nothing'' then Some (JObj [])
      else if raw = ''token'' then Some (JObj [(''token'', JStr ''abc'')])
      else if raw = ''error'' then Some (JObj [(''error'', JStr ''invalid token'')])
      else if raw = ''5'' then Some (JNum 5)
      else None)"

definition blank_template :: template where
  "blank_template =
     \<lparr>template_uuid = JNull, template_title = JNull, template_name = JNull,
      template_description = JNull, template_more_info = JNull, template_cloud_only = JNull,
      template_subscription_only = JNull\<rparr>"

definition blank_folder :: folder where
  "blank_folder =
     \<lparr>folder_id = JNum (- 1), folder_type = JNull, folder_custom = JBool False,
      folder_default_tag = JNum 1, folder_name = JNull, folder_unread_count = JNum 0\<rparr>"

definition blank_user :: user where
  "blank_user =
     \<lparr>user_username = JNull, user_password = JNull, user_token = JNull,
      user_last_login = JNull, user_permissions = JNull, user_type = JNull, user_name = JNull,
      user_id = JNull\<rparr>"

definition demo_ext :: ext where
  "demo_ext =
     \<lparr>json_dumps = (\<lambda>j. ''{}''), json_loads = demo_loads,
      format_s = (\<lambda>j. case j of JStr s \<Rightarrow> s | _ \<Rightarrow> []),
      new_Template = blank_template, new_Folder = blank_folder, new_User = blank_user,
      new_Mail = [], new_Proxy = [],
      Mail_load = (\<lambda>s. returns True s), Proxy_load = (\<lambda>s. returns True s)\<rparr>"

text \<open>
  A fresh client whose transport follows the given outcomes and then keeps answering
  with status 200 and an empty body.
\<close>

definition user_7 :: user where
  "user_7 = blank_user\<lparr>user_name := JStr ''admin'', user_id := JNum 7\<rparr>"

text \<open>The answers to a load of everything on a server without scanners.\<close>

definition demo_load_responses :: "get_outcome list" where
  "demo_load_responses =
     [Response 200 ''properties'', Response 200 ''no scanners'', Response 200 ''nothing'',
      Response 200 ''nothing'', Response 200 ''no folders'', Response 200 ''nothing'',
      Response 200 ''no users'']"

definition demo_user :: user where
  "demo_user = blank_user\<lparr>user_username := JStr ''admin'', user_password := JStr ''secret''\<rparr>"

definition scanner_1 :: scanner where
  "scanner_1 =
     \<lparr>scanner_id = JNum 1, scanner_uuid = JNull, scanner_name = JNull, scanner_type = JNull,
      scanner_status = JNull, scanner_scan_count = JNull, scanner_engine_version = JNull,
      scanner_platform = JNull, scanner_loaded_plugin_set = JNull,
      scanner_registration_code = JNull, scanner_owner = JNull\<rparr>"

definition demo_init :: "send_outcome list \<Rightarrow> get_outcome list \<Rightarrow> nessus" where
  "demo_init sends recvs =
     init ''host'' 8834 True (script sends SendOk) (script recvs (Response 200 []))"

section \<open>Properties of the session layer\<close>

lemma session_step_refl: "session_step s s"
  unfolding session_step_def
  by (rule exI[of _ "connection s"], rule exI[of _ "headers s"], rule exI[of _ "user s"],
      rule exI[of _ "server_version s"], rule exI[of _ "[]"], rule exI[of _ 0]) simp

lemma session_step_trans:
  assumes "session_step s s1" and "session_step s1 s2"
  shows "session_step s s2"
proof -
  from assms(1) obtain c h u v rest n where
    s1: "s1 = s\<lparr>connection := c, headers := h, user := u, server_version := v,
                 sent := sent s @ rest, received := received s + n\<rparr>"
    and d1: "dom (headers s) \<subseteq> dom h"
    unfolding session_step_def by blast
  from assms(2) obtain c' h' u' v' rest' n' where
    s2: "s2 = s1\<lparr>connection := c', headers := h', user := u', server_version := v',
                 sent := sent s1 @ rest', received := received s1 + n'\<rparr>"
    and d2: "dom (headers s1) \<subseteq> dom h'"
    unfolding session_step_def by blast
  have "s2 = s\<lparr>connection := c', headers := h', user := u', server_version := v',
                 sent := sent s @ (rest @ rest'), received := received s + (n + n')\<rparr>"
    using s1 s2 by simp
  moreover have "dom (headers s) \<subseteq> dom h'"
    using d1 d2 s1 by auto
  ultimately show ?thesis
    unfolding session_step_def by blast
qed

lemma session_step_eqI:
  "s' = s\<lparr>connection := c, headers := h, user := u, server_version := v,
            sent := sent s @ rest, received := received s + n\<rparr> \<Longrightarrow>
   dom (headers s) \<subseteq> dom h \<Longrightarrow> session_step s s'"
  unfolding session_step_def by blast

lemma session_step_server_version: "session_step s (s\<lparr>server_version := v\<rparr>)"
  by (rule session_step_eqI[where c="connection s" and h="headers s" and u="user s" and v=v
        and rest="[]" and n=0]) simp_all

lemma session_step_user: "session_step s (s\<lparr>user := u\<rparr>)"
  by (rule session_step_eqI[where c="connection s" and h="headers s" and u=u
        and v="server_version s" and rest="[]" and n=0]) simp_all

lemma session_step_header: "session_step s (s\<lparr>headers := (headers s)(k \<mapsto> w)\<rparr>)"
  by (rule session_step_eqI[where c="connection s" and h="(headers s)(k \<mapsto> w)" and u="user s"
        and v="server_version s" and rest="[]" and n=0]) auto

lemma session_step_connection: "session_step s (s\<lparr>connection := c\<rparr>)"
  by (rule session_step_eqI[where c=c and h="headers s" and u="user s"
        and v="server_version s" and rest="[]" and n=0]) simp_all

lemma session_step_sent: "session_step s (s\<lparr>sent := sent s @ xs\<rparr>)"
  by (rule session_step_eqI[where c="connection s" and h="headers s" and u="user s"
        and v="server_version s" and rest=xs and n=0]) simp_all

text \<open>What a session step keeps.\<close>

lemma session_step_collections: "session_step s s' \<Longrightarrow> collections s' = collections s"
  unfolding session_step_def collections_def by auto

lemma session_step_scripts:
  "session_step s s' \<Longrightarrow> send_script s' = send_script s \<and> recv_script s' = recv_script s"
  unfolding session_step_def by auto

lemma session_step_prefix: "session_step s s' \<Longrightarrow> prefix (sent s) (sent s')"
  unfolding session_step_def by auto

lemma session_step_headers: "session_step s s' \<Longrightarrow> dom (headers s) \<subseteq> dom (headers s')"
  unfolding session_step_def by auto

text \<open>How a sequence of two calls ends.\<close>

lemma bindR_cases:
  assumes "bindR m f = Some (r, s')"
  obtains (raised) e where "m = Some (Inl e, s')" "r = Inl e"
        | (returned) v s1 where "m = Some (Inr v, s1)" "f v s1 = Some (r, s')"
  using assms unfolding bindR_def by (auto split: option.splits sum.splits prod.splits)

lemma liftE_state: "liftE m s = Some (r, s') \<Longrightarrow> s' = s"
  unfolding liftE_def by (auto split: sum.splits)

lemma returns_state: "returns v s = Some (r, s') \<Longrightarrow> s' = s \<and> r = Inr v"
  unfolding returns_def by auto

lemma raises_state: "raises e s = Some (r, s') \<Longrightarrow> s' = s \<and> r = Inl e"
  unfolding raises_def by auto

lemma getresponse_step: "getresponse s = Some (r, s') \<Longrightarrow> session_step s s'"
  unfolding getresponse_def Let_def session_step_def
  apply (rule exI[of _ "connection s"], rule exI[of _ "headers s"], rule exI[of _ "user s"],
      rule exI[of _ "server_version s"], rule exI[of _ "[]"], rule exI[of _ 1])
  by (auto simp: returns_def raises_def split: get_outcome.splits if_splits)

lemma stepsD: "steps req \<Longrightarrow> req m t p h s = Some (r, s') \<Longrightarrow> session_step s s'"
  unfolding steps_def by blast

lemma api_request_with_step:
  assumes "steps req" and "api_request_with E req m t p s = Some (r, s')"
  shows "session_step s s'"
  using assms(2) unfolding api_request_with_def Let_def
  apply (elim bindR_cases)
   apply (erule stepsD[OF assms(1)])
  apply (auto split: if_splits option.splits dest!: liftE_state returns_state raises_state
              elim!: bindR_cases dest: stepsD[OF assms(1)])
  done

lemma server_version_with_step:
  assumes "steps req" and "server_version_with req s = Some (r, s')"
  shows "session_step s s'"
proof (cases "server_version s = JNull")
  case False
  then show ?thesis
    using assms(2) by (simp add: server_version_with_def returns_def session_step_refl)
next
  case True
  from assms(2) True show ?thesis
    unfolding server_version_with_def
    apply (auto elim!: bindR_cases split: if_splits dest!: returns_state stepsD[OF assms(1)])
    apply (blast intro: session_step_trans session_step_server_version)+
    done
qed

lemma login_with_step:
  assumes "steps req" and "login_with E req usr s = Some (r, s')"
  shows "session_step s s'"
proof -
  note sv = server_version_with_step[OF assms(1)]
  note ap = api_request_with_step[OF assms(1)]
  have fin: "session_step x (x\<lparr>user := u, headers := (headers x)(k \<mapsto> w)\<rparr>)" for x u k w
    using session_step_trans[OF session_step_user[of x u] session_step_header[of "x\<lparr>user := u\<rparr>" k w]]
    by simp
  from assms(2) show ?thesis
    unfolding login_with_def
    apply (auto split: if_splits option.splits
             dest!: liftE_state returns_state raises_state sv ap elim!: bindR_cases)
    apply (blast intro: session_step_trans session_step_user fin)+
    done
qed

lemma request_step: "request E k m t p h s = Some (r, s') \<Longrightarrow> session_step s s'"
proof (induction k arbitrary: m t p h s r s')
  case 0
  then show ?case by simp
next
  case (Suc k)
  have st: "steps (request E k)"
    unfolding steps_def using Suc.IH by blast
  define s1 where "s1 = (if connection s = None
                then s\<lparr>connection := Some (HTTPSConnection (url s) (port s) (\<not> verify s))\<rparr>
                else s)"
  define s2 where "s2 = s1\<lparr>sent := sent s1 @
                 [\<lparr>req_method = m, req_target = t, req_body = p,
                   req_headers = (case h of None \<Rightarrow> headers s1 | Some x \<Rightarrow> x)\<rparr>]\<rparr>"
  define s3 where "s3 = s2\<lparr>connection := Some (HTTPSConnection (url s2) (port s2) False)\<rparr>"
  have "session_step s s1"
    unfolding s1_def by (simp add: session_step_refl session_step_connection)
  moreover have "session_step s1 s2"
    unfolding s2_def by (rule session_step_sent)
  ultimately have a: "session_step s s2"
    by (rule session_step_trans)
  have b: "session_step s2 s3"
    unfolding s3_def by (rule session_step_connection)
  have rec: "session_step s3 s'"
    if "bindR (login_with E (request E k) (user s3) s3) (\<lambda>logged_in s4.
                 bindR (request E k m t p (Some (headers s4)) s4) (\<lambda>retried s5.
                   getresponse s5)) = Some (r, s')"
    using that
    apply (auto elim!: bindR_cases dest!: login_with_step[OF st] Suc.IH getresponse_step)
    apply (blast intro: session_step_trans)+
    done
  have "session_step s2 s'"
    using Suc.prems b rec
    unfolding request.simps Let_def s1_def[symmetric] s2_def[symmetric] s3_def[symmetric]
    apply (auto split: send_outcome.splits if_splits dest!: getresponse_step raises_state)
    apply (blast intro: session_step_trans session_step_refl)+
    done
  with a show ?case by (rule session_step_trans)
qed

lemma request_steps: "steps (request E k)"
  unfolding steps_def using request_step by blast

lemma api_request_step: "api_request E k m t p s = Some (r, s') \<Longrightarrow> session_step s s'"
  unfolding api_request_def by (rule api_request_with_step[OF request_steps])

lemma login_step: "login E k usr s = Some (r, s') \<Longrightarrow> session_step s s'"
  unfolding login_def by (rule login_with_step[OF request_steps])

lemma request_sent_first:
  assumes "request E k m t p h s = Some (r, s')"
  shows "\<exists>rest. sent s' = sent s @
           \<lparr>req_method = m, req_target = t, req_body = p,
            req_headers = (case h of None \<Rightarrow> headers s | Some x \<Rightarrow> x)\<rparr> # rest"
proof (cases k)
  case 0
  with assms show ?thesis by simp
next
  case (Suc j)
  define s1 where "s1 = (if connection s = None
                then s\<lparr>connection := Some (HTTPSConnection (url s) (port s) (\<not> verify s))\<rparr>
                else s)"
  define s2 where "s2 = s1\<lparr>sent := sent s1 @
                 [\<lparr>req_method = m, req_target = t, req_body = p,
                   req_headers = (case h of None \<Rightarrow> headers s1 | Some x \<Rightarrow> x)\<rparr>]\<rparr>"
  define s3 where "s3 = s2\<lparr>connection := Some (HTTPSConnection (url s2) (port s2) False)\<rparr>"
  have s2_sent: "sent s2 = sent s @ [\<lparr>req_method = m, req_target = t, req_body = p,
            req_headers = (case h of None \<Rightarrow> headers s | Some x \<Rightarrow> x)\<rparr>]"
    unfolding s2_def s1_def by (simp split: option.splits)
  have b: "session_step s2 s3"
    unfolding s3_def by (rule session_step_connection)
  have rec: "session_step s3 s'"
    if "bindR (login_with E (request E j) (user s3) s3) (\<lambda>logged_in s4.
                 bindR (request E j m t p (Some (headers s4)) s4) (\<lambda>retried s5.
                   getresponse s5)) = Some (r, s')"
    using that
    apply (auto elim!: bindR_cases dest!: login_with_step[OF request_steps] request_step getresponse_step)
    apply (blast intro: session_step_trans)+
    done
  have "session_step s2 s'"
    using assms b rec
    unfolding Suc request.simps Let_def s1_def[symmetric] s2_def[symmetric] s3_def[symmetric]
    apply (auto split: send_outcome.splits if_splits dest!: getresponse_step raises_state)
    apply (blast intro: session_step_trans session_step_refl)+
    done
  then have "prefix (sent s2) (sent s')"
    by (rule session_step_prefix)
  then show ?thesis
    unfolding s2_sent prefix_def by auto
qed


lemma api_request_sent_first:
  assumes "api_request E k m t p s = Some (r, s')"
  shows "\<exists>rest. sent s' = sent s @
           \<lparr>req_method = m, req_target = t,
            req_body = JStr (json_dumps E (if \<not> py_truthy p then JObj [] else p)),
            req_headers = headers s\<rparr> # rest"
  using assms unfolding api_request_def api_request_with_def Let_def
  by (auto elim!: bindR_cases split: if_splits option.splits
           dest!: liftE_state returns_state raises_state request_sent_first)

lemma for_each_rel:
  assumes refl: "\<And>s. R s s"
    and trans: "\<And>a b c. R a b \<Longrightarrow> R b c \<Longrightarrow> R a c"
    and body: "\<And>x s r s'. x \<in> set xs \<Longrightarrow> body x s = Some (r, s') \<Longrightarrow> R s s'"
    and run: "for_each body xs s = Some (r, s')"
  shows "R s s'"
  using body run
proof (induction xs arbitrary: s)
  case Nil
  then show ?case by (simp add: returns_def refl)
next
  case (Cons x xs)
  from Cons.prems(2) show ?case
  proof (simp, elim bindR_cases)
    fix e assume "body x s = Some (Inl e, s')"
    then show "R s s'" using Cons.prems(1)[of x s "Inl e" s'] by simp
  next
    fix v s1 assume 1: "body x s = Some (Inr v, s1)" and 2: "for_each body xs s1 = Some (r, s')"
    have "R s s1" using 1 Cons.prems(1)[of x s "Inr v" s1] by simp
    moreover have "R s1 s'"
    proof (rule Cons.IH[OF _ 2])
      fix y a q b assume "y \<in> set xs" "body y a = Some (q, b)"
      then show "R a b" using Cons.prems(1)[of y a q b] by simp
    qed
    ultimately show "R s s'" by (rule trans)
  qed
qed

lemma add_scanner_sent: "add_scanner x s = Some (r, s') \<Longrightarrow> sent s' = sent s"
  unfolding add_scanner_def
  by (auto elim!: bindR_cases dest!: liftE_state returns_state)

lemma for_each_add_scanner_sent: "for_each add_scanner xs s = Some (r, s') \<Longrightarrow> sent s' = sent s"
  by (rule for_each_rel[where R="\<lambda>a b. sent b = sent a" and body=add_scanner and xs=xs])
     (auto dest: add_scanner_sent)

lemma load_scanners_sent_first:
  assumes "load_scanners E k s = Some (r, s')"
  shows "\<exists>rest. sent s' = sent s @
           \<lparr>req_method = ''GET'', req_target = ''/scanners'',
            req_body = JStr (json_dumps E (JObj [])), req_headers = headers s\<rparr> # rest"
  using assms unfolding load_scanners_def
  by (auto elim!: bindR_cases split: if_splits
           dest!: liftE_state returns_state for_each_add_scanner_sent api_request_sent_first)

lemmas run_defs = returns_def raises_def bindR_def bindE_def liftE_def getresponse_def
  api_request_def api_request_with_def script_def demo_ext_def demo_loads_def demo_init_def
  init_def HTTPSConnection_def

section \<open>The API envelope\<close>

text \<open>
  C8, as stated, fails: a body that parses to a value without fields is not returned
  as data. The body \<^verbatim>\<open>5\<close> is not empty and parses to the number 5, which has no
  error field; the membership test on it raises \<^verbatim>\<open>TypeError\<close>.
\<close>

theorem api_request_number_counterexample:
  "json_loads demo_ext ''5'' = Some (JNum 5) \<and>
   map_option fst
     (api_request demo_ext (Suc 0) ''GET'' ''/scans'' JNull (demo_init [] [Response 200 ''5'']))
   = Some (Inl TypeError)"
  by (simp add: run_defs)

text \<open>
  C8, amended: when the response body parses to a JSON object, the envelope raises
  \<^verbatim>\<open>NessusAPIError\<close> with the value of the \<^verbatim>\<open>error\<close> key if and only if the object
  has that key, and otherwise returns the object; an empty body, like a body that parses
  to \<^verbatim>\<open>null\<close>, returns \<^verbatim>\<open>None\<close>.
\<close>

theorem api_request_envelope:
  assumes "request E k method target
             (JStr (json_dumps E (if \<not> py_truthy params then JObj [] else params))) None s
           = Some (Inr raw, s1)"
  shows "(raw = [] \<longrightarrow> api_request E k method target params s = Some (Inr JNull, s1)) \<and>
         (raw \<noteq> [] \<and> json_loads E raw = Some JNull \<longrightarrow>
            api_request E k method target params s = Some (Inr JNull, s1)) \<and>
         (raw \<noteq> [] \<and> json_loads E raw = Some (JObj kvs) \<longrightarrow>
            api_request E k method target params s =
              (case map_of kvs ''error'' of
                 Some msg \<Rightarrow> Some (Inl (NessusAPIError msg), s1)
               | None \<Rightarrow> Some (Inr (JObj kvs), s1)))"
  using assms
  by (auto simp: api_request_def api_request_with_def returns_def raises_def bindR_def liftE_def
           split: option.splits)

theorem api_request_envelope_witness:
  "\<exists>s1. request demo_ext (Suc 0) ''GET'' ''/scans''
           (JStr (json_dumps demo_ext (if \<not> py_truthy JNull then JObj [] else JNull))) None
           (demo_init [] [Response 200 ''error'']) = Some (Inr ''error'', s1) \<and>
         ''error'' \<noteq> [] \<and>
         json_loads demo_ext ''error'' = Some (JObj [(''error'', JStr ''invalid token'')]) \<and>
         api_request demo_ext (Suc 0) ''GET'' ''/scans'' JNull (demo_init [] [Response 200 ''error''])
           = Some (Inl (NessusAPIError (JStr ''invalid token'')), s1)"
proof -
  obtain s1 where r: "request demo_ext (Suc 0) ''GET'' ''/scans''
           (JStr (json_dumps demo_ext (if \<not> py_truthy JNull then JObj [] else JNull))) None
           (demo_init [] [Response 200 ''error'']) = Some (Inr ''error'', s1)"
    by (simp add: run_defs)
  have l: "json_loads demo_ext ''error'' = Some (JObj [(''error'', JStr ''invalid token'')])"
    by (simp add: run_defs)
  show ?thesis
    using r l api_request_envelope[OF r, of "[(''error'', JStr ''invalid token'')]"]
    by auto
qed

lemmas load_defs = load_scanners_def add_scanner_def hydrate_scanner_def scanner_record_def
  load_agents_def load_agents_of_def add_agent_def hydrate_agent_def agent_record_def
  present_not_none_def get_or_default_def

section \<open>Reloading a collection\<close>

text \<open>
  C1: a load should replace the collection of its kind. \<^verbatim>\<open>load_scans\<close>,
  \<^verbatim>\<open>load_templates\<close>, \<^verbatim>\<open>load_folders\<close>, \<^verbatim>\<open>load_policies\<close> and
  \<^verbatim>\<open>load_users\<close> start from an empty list; \<^verbatim>\<open>load_scanners\<close> does not. Two
  loads of the scanners, the first answered with scanner 1 and the second with scanner 2,
  leave both scanners in the collection.
\<close>


theorem load_scanners_twice_accumulates:
  "(case load_scanners demo_ext (Suc 0)
           (demo_init [] [Response 200 ''scanners 1'', Response 200 ''scanners 2'']) of
      None \<Rightarrow> False
    | Some (r1, s1) \<Rightarrow>
        r1 = Inr True \<and>
        (case load_scanners demo_ext (Suc 0) s1 of
           None \<Rightarrow> False
         | Some (r2, s2) \<Rightarrow> r2 = Inr True \<and> map scanner_id (scanners s2) = [JNum 1, JNum 2]))"
  by (simp add: run_defs load_defs)

section \<open>Lazy loading through the properties\<close>

text \<open>
  C4, as stated, fails in both directions. After a load that found no scanner, reading
  the \<^verbatim>\<open>scanners\<close> property fetches again. And on a fresh client, whose scans were
  never loaded, reading the \<^verbatim>\<open>scans\<close> property returns the empty list without
  any request.
\<close>


theorem lazy_load_counterexample:
  "(case load_scanners demo_ext (Suc 0)
           (demo_init [] [Response 200 ''no scanners'', Response 200 ''no scanners'']) of
      None \<Rightarrow> False
    | Some (r1, s1) \<Rightarrow>
        r1 = Inr True \<and> scanners s1 = [] \<and> map req_target (sent s1) = [''/scanners''] \<and>
        (case scanners_property demo_ext (Suc 0) s1 of
           None \<Rightarrow> False
         | Some (r2, s2) \<Rightarrow>
             r2 = Inr [] \<and> map req_target (sent s2) = [''/scanners'', ''/scanners''])) \<and>
   scans_property demo_ext (Suc 0) (demo_init [] []) = Some (Inr (Some []), demo_init [] [])"
  by (simp add: run_defs load_defs scanners_property_def scans_property_def)

text \<open>
  C4, amended: the \<^verbatim>\<open>scanners\<close>, \<^verbatim>\<open>templates\<close> and \<^verbatim>\<open>folders\<close>
  properties return the stored list without a fetch when it is not empty, and run the
  load whenever it is empty (for the scanners: the next request made is the fetch of
  \<^verbatim>\<open>/scanners\<close>), also after a load that found nothing. The \<^verbatim>\<open>scans\<close>,
  \<^verbatim>\<open>users\<close>, \<^verbatim>\<open>policies\<close> and \<^verbatim>\<open>agents\<close> properties return the stored
  value unchanged unless it is \<^verbatim>\<open>None\<close>, and the constructor stores an empty list
  there, so a collection that was never loaded is returned empty.
\<close>


theorem lazy_properties:
  "(scanners s \<noteq> [] \<longrightarrow> scanners_property E k s = Some (Inr (scanners s), s)) \<and>
   (scanners s = [] \<longrightarrow>
      scanners_property E k s = bindR (load_scanners E k s) (\<lambda>b s1. returns (scanners s1) s1) \<and>
      (\<forall>r s'. scanners_property E k s = Some (r, s') \<longrightarrow>
         length (sent s) < length (sent s') \<and>
         req_target (sent s' ! length (sent s)) = ''/scanners'')) \<and>
   (templates s \<noteq> [] \<longrightarrow> templates_property E k s = Some (Inr (templates s), s)) \<and>
   (templates s = [] \<longrightarrow>
      templates_property E k s = bindR (load_templates E k s) (\<lambda>b s1. returns (templates s1) s1)) \<and>
   (folders s \<noteq> [] \<longrightarrow> folders_property E k s = Some (Inr (folders s), s)) \<and>
   (folders s = [] \<longrightarrow>
      folders_property E k s = bindR (load_folders E k s) (\<lambda>b s1. returns (folders s1) s1)) \<and>
   (scans s \<noteq> None \<longrightarrow> scans_property E k s = Some (Inr (scans s), s)) \<and>
   (users s \<noteq> None \<longrightarrow> users_property E k s = Some (Inr (users s), s)) \<and>
   (policies s \<noteq> None \<longrightarrow> policies_property E k s = Some (Inr (policies s), s)) \<and>
   (agents s \<noteq> None \<longrightarrow> agents_property E k s = Some (Inr (agents s), s)) \<and>
   scans (init u p v a b) = Some [] \<and> users (init u p v a b) = Some [] \<and>
   policies (init u p v a b) = Some [] \<and> agents (init u p v a b) = Some []"
proof -
  have fetch: "length (sent s) < length (sent s') \<and>
         req_target (sent s' ! length (sent s)) = ''/scanners''"
    if "scanners s = []" and "scanners_property E k s = Some (r, s')" for r s'
  proof -
    from that have "bindR (load_scanners E k s) (\<lambda>b s1. returns (scanners s1) s1) = Some (r, s')"
      by (simp add: scanners_property_def)
    then obtain r0 where "load_scanners E k s = Some (r0, s')"
      by (auto elim!: bindR_cases dest!: returns_state)
    from load_scanners_sent_first[OF this] show ?thesis
      by (auto simp: nth_append)
  qed
  show ?thesis
    using fetch
    by (simp add: scanners_property_def templates_property_def folders_property_def
        scans_property_def users_property_def policies_property_def agents_property_def
        returns_def init_def)
qed

theorem lazy_properties_witness:
  "scanners (demo_init [] [Response 200 ''no scanners'']) = [] \<and>
   (\<exists>r s'. scanners_property demo_ext (Suc 0) (demo_init [] [Response 200 ''no scanners''])
             = Some (r, s') \<and>
           length (sent (demo_init [] [Response 200 ''no scanners''])) < length (sent s') \<and>
           req_target (sent s' ! length (sent (demo_init [] [Response 200 ''no scanners''])))
             = ''/scanners'') \<and>
   scans (demo_init [] []) \<noteq> None \<and>
   scans_property demo_ext (Suc 0) (demo_init [] []) = Some (Inr (scans (demo_init [] [])), demo_init [] [])"
proof -
  let ?s = "demo_init [] [Response 200 ''no scanners'']"
  have e: "scanners ?s = []"
    by (simp add: demo_init_def init_def)
  obtain r s' where run: "scanners_property demo_ext (Suc 0) ?s = Some (r, s')"
    by (simp add: run_defs load_defs scanners_property_def)
  have n: "scans (demo_init [] []) \<noteq> None"
    by (simp add: demo_init_def init_def)
  show ?thesis
    using e run n lazy_properties[of ?s demo_ext "Suc 0"] lazy_properties[of "demo_init [] []" demo_ext "Suc 0"]
    by auto
qed

section \<open>An error reported by the server during a load\<close>

text \<open>
  C7, as stated, fails for the collections that are fetched scanner by scanner. With two
  scanners loaded, the agents of the first are appended before the request for the second
  is answered with an \<^verbatim>\<open>error\<close> field: the load raises \<^verbatim>\<open>NessusAPIError\<close> and
  the agents collection has changed.
\<close>


theorem load_agents_api_error_counterexample:
  "(case load_scanners demo_ext (Suc 0)
           (demo_init [] [Response 200 ''scanners 1 2'', Response 200 ''agents 10'',
                          Response 200 ''error'']) of
      None \<Rightarrow> False
    | Some (r1, s1) \<Rightarrow>
        r1 = Inr True \<and> agents s1 = Some [] \<and>
        (case load_agents demo_ext (Suc 0) s1 of
           None \<Rightarrow> False
         | Some (r2, s2) \<Rightarrow>
             r2 = Inl (NessusAPIError (JStr ''invalid token'')) \<and>
             map_option (map agent_id) (agents s2) = Some [JNum 10]))"
  by (simp add: run_defs load_defs)

text \<open>
  C7, amended: for the loads that make a single fetch (scanners, policies, scans, folders,
  templates, users), when that fetch raises \<^verbatim>\<open>NessusAPIError\<close> the load raises it
  and no collection of the registry has changed.
\<close>


theorem load_api_error_keeps_collections:
  "(api_request E k ''GET'' ''/scanners'' JNull s = Some (Inl (NessusAPIError msg), s1) \<longrightarrow>
      load_scanners E k s = Some (Inl (NessusAPIError msg), s1) \<and> collections s1 = collections s) \<and>
   (api_request E k ''GET'' ''/policies'' JNull s = Some (Inl (NessusAPIError msg), s1) \<longrightarrow>
      load_policies E k s = Some (Inl (NessusAPIError msg), s1) \<and> collections s1 = collections s) \<and>
   (api_request E k ''GET'' ''/scans'' (JStr []) s = Some (Inl (NessusAPIError msg), s1) \<longrightarrow>
      load_scans E k s = Some (Inl (NessusAPIError msg), s1) \<and> collections s1 = collections s) \<and>
   (api_request E k ''GET'' ''/folders'' JNull s = Some (Inl (NessusAPIError msg), s1) \<longrightarrow>
      load_folders E k s = Some (Inl (NessusAPIError msg), s1) \<and> collections s1 = collections s) \<and>
   (api_request E k ''GET'' ''/editor/scan/templates'' (JStr []) s = Some (Inl (NessusAPIError msg), s1) \<longrightarrow>
      load_templates E k s = Some (Inl (NessusAPIError msg), s1) \<and> collections s1 = collections s) \<and>
   (api_request E k ''GET'' ''/users'' JNull s = Some (Inl (NessusAPIError msg), s1) \<longrightarrow>
      load_users E k s = Some (Inl (NessusAPIError msg), s1) \<and> collections s1 = collections s)"
  by (auto simp: load_scanners_def load_policies_def load_scans_def load_folders_def
        load_templates_def load_users_def bindR_def
        dest: api_request_step[THEN session_step_collections])

theorem load_api_error_keeps_collections_witness:
  "\<exists>s1. api_request demo_ext (Suc 0) ''GET'' ''/scans'' (JStr [])
           (demo_init [] [Response 200 ''error''])
         = Some (Inl (NessusAPIError (JStr ''invalid token'')), s1) \<and>
        load_scans demo_ext (Suc 0) (demo_init [] [Response 200 ''error''])
         = Some (Inl (NessusAPIError (JStr ''invalid token'')), s1) \<and>
        collections s1 = collections (demo_init [] [Response 200 ''error''])"
proof -
  obtain s1 where a: "api_request demo_ext (Suc 0) ''GET'' ''/scans'' (JStr [])
           (demo_init [] [Response 200 ''error''])
         = Some (Inl (NessusAPIError (JStr ''invalid token'')), s1)"
    by (simp add: run_defs)
  show ?thesis
    using a load_api_error_keeps_collections[of demo_ext "Suc 0" "demo_init [] [Response 200 ''error'']"
              "JStr ''invalid token''" s1]
    by auto
qed

section \<open>Hydration of scans\<close>



lemma resolve_owner_total:
  "py_getitem r ''owner_id'' = Inr oid \<Longrightarrow> \<exists>w. resolve_owner us r ow = Inr w"
  by (induction us arbitrary: ow) (auto simp: bindE_def)

lemma hydrate_scan_fields:
  assumes "hydrate_scan E r = Inr x"
  shows "scan_owner x = None \<and>
         (\<exists>v. py_getitem r ''uuid'' = Inr v \<and> scan_template x = (new_Template E)\<lparr>template_uuid := v\<rparr>) \<and>
         (\<exists>v. py_getitem r ''folder_id'' = Inr v \<and> scan_folder x = (new_Folder E)\<lparr>folder_id := v\<rparr>)"
  using assms unfolding hydrate_scan_def bindE_def
  by (auto split: sum.splits)

lemma add_scan_loaded_users:
  assumes "users s = Some us" and "add_scan E k r s = Some (Inr u, s')"
  shows "\<exists>xs y. scans s = Some xs \<and> hydrated_scan E us r y \<and> s' = s\<lparr>scans := Some (xs @ [y])\<rparr>"
  using assms unfolding add_scan_def users_property_def hydrated_scan_def
  by (auto elim!: bindR_cases dest!: liftE_state returns_state raises_state
           simp: liftE_def hydrate_scan_fields returns_def raises_def
           split: sum.splits option.splits if_splits)

lemma for_each_add_scan:
  assumes "users s = Some us" and "scans s = Some xs"
    and "for_each (add_scan E k) rs s = Some (Inr u, s')"
  shows "\<exists>ys. s' = s\<lparr>scans := Some (xs @ ys)\<rparr> \<and> list_all2 (hydrated_scan E us) rs ys"
  using assms
proof (induction rs arbitrary: s xs)
  case Nil
  then show ?case by (auto simp: returns_def)
next
  case (Cons r rs)
  from Cons.prems(3) obtain s1 where
    1: "add_scan E k r s = Some (Inr (), s1)" and 2: "for_each (add_scan E k) rs s1 = Some (Inr u, s')"
    by (auto elim!: bindR_cases)
  from add_scan_loaded_users[OF Cons.prems(1) 1] Cons.prems(2) obtain y where
    y: "hydrated_scan E us r y" and s1: "s1 = s\<lparr>scans := Some (xs @ [y])\<rparr>"
    by auto
  have "users s1 = Some us" "scans s1 = Some (xs @ [y])"
    using s1 Cons.prems(1) by simp_all
  from Cons.IH[OF this 2] obtain ys where
    "s' = s1\<lparr>scans := Some ((xs @ [y]) @ ys)\<rparr>" "list_all2 (hydrated_scan E us) rs ys"
    by blast
  then have "s' = s\<lparr>scans := Some (xs @ (y # ys))\<rparr> \<and> list_all2 (hydrated_scan E us) (r # rs) (y # ys)"
    using s1 y by simp
  then show ?case by blast
qed

lemma load_scans_hydrated:
  assumes api: "api_request E k ''GET'' ''/scans'' (JStr []) s = Some (Inr response, s1)"
    and rs: "py_getitem response ''scans'' = Inr (JArr rs)"
    and us: "users s = Some us"
    and ok: "load_scans E k s = Some (Inr b, s')"
  shows "\<exists>ys. s' = s1\<lparr>scans := Some ys\<rparr> \<and> list_all2 (hydrated_scan E us) rs ys"
proof -
  have u1: "users (s1\<lparr>scans := Some []\<rparr>) = Some us"
    using session_step_collections[OF api_request_step[OF api]] us
    by (simp add: collections_def)
  have p: "present_not_none ''scans'' response = Inr True"
    using rs by (cases response) (auto simp: present_not_none_def bindE_def split: option.splits)
  from ok obtain u where "for_each (add_scan E k) rs (s1\<lparr>scans := Some []\<rparr>) = Some (Inr u, s')"
    unfolding load_scans_def
    by (auto simp: api p rs bindR_def liftE_def bindE_def returns_def split: option.splits sum.splits prod.splits)
  from for_each_add_scan[OF u1 _ this, of "[]"] show ?thesis
    by simp
qed

lemma resolve_owner_mem:
  "resolve_owner us r ow = Inr (Some u) \<Longrightarrow> u \<in> set us \<or> ow = Some u"
proof (induction us arbitrary: ow)
  case Nil
  then show ?case by simp
next
  case (Cons a us)
  show ?case
  proof (cases "py_getitem r ''owner_id''")
    case (Inl e)
    with Cons.prems show ?thesis by (simp add: bindE_def)
  next
    case (Inr oid)
    with Cons.prems have
      "resolve_owner us r (if py_eq (user_id a) oid then Some a else ow) = Inr (Some u)"
      by (simp add: bindE_def)
    from Cons.IH[OF this] show ?thesis
      by (auto split: if_splits)
  qed
qed



lemma hydrated_scan_owner:
  assumes "hydrated_scan E us r y"
  shows "resolve_owner us r None = Inr (scan_owner y)"
  using assms unfolding hydrated_scan_def by (auto split: sum.splits)

lemma hydrated_scan_stubs:
  assumes "hydrated_scan E us r y"
  shows "(\<exists>v. py_getitem r ''uuid'' = Inr v \<and> scan_template y = (new_Template E)\<lparr>template_uuid := v\<rparr>) \<and>
         (\<exists>v. py_getitem r ''folder_id'' = Inr v \<and> scan_folder y = (new_Folder E)\<lparr>folder_id := v\<rparr>)"
  using assms hydrate_scan_fields unfolding hydrated_scan_def
  by (fastforce split: sum.splits)

lemmas scan_defs = load_scans_def add_scan_def hydrate_scan_def scan_record_def users_property_def
  present_not_none_def user_7_def blank_user_def blank_folder_def blank_template_def



section \<open>Cross-references set during hydration\<close>

lemma hydrate_agent_scanner_id: "hydrate_agent sc r = Inr x \<Longrightarrow> agent_scanner_id x = scanner_id sc"
  unfolding hydrate_agent_def bindE_def by (auto split: sum.splits)

text \<open>Agents are only appended, each with the id of a scanner from \<open>S\<close>.\<close>

lemma add_agent_appends:
  assumes "add_agent sc r s = Some (res, s')" and "scanner_id sc \<in> S"
  shows "scanners s' = scanners s \<and>
         (\<forall>xs. agents s = Some xs \<longrightarrow>
            (\<exists>zs. agents s' = Some (xs @ zs) \<and> (\<forall>z\<in>set zs. agent_scanner_id z \<in> S)))"
  using assms unfolding add_agent_def
  by (auto elim!: bindR_cases dest!: liftE_state returns_state raises_state
           simp: liftE_def hydrate_agent_scanner_id split: sum.splits option.splits)

lemma appends_trans:
  assumes "scanners b = scanners a \<and>
         (\<forall>xs. agents a = Some xs \<longrightarrow>
            (\<exists>zs. agents b = Some (xs @ zs) \<and> (\<forall>z\<in>set zs. agent_scanner_id z \<in> S)))"
    and "scanners c = scanners b \<and>
         (\<forall>xs. agents b = Some xs \<longrightarrow>
            (\<exists>zs. agents c = Some (xs @ zs) \<and> (\<forall>z\<in>set zs. agent_scanner_id z \<in> S)))"
  shows "scanners c = scanners a \<and>
         (\<forall>xs. agents a = Some xs \<longrightarrow>
            (\<exists>zs. agents c = Some (xs @ zs) \<and> (\<forall>z\<in>set zs. agent_scanner_id z \<in> S)))"
proof (intro conjI allI impI)
  show "scanners c = scanners a" using assms by simp
next
  fix xs assume "agents a = Some xs"
  with assms(1) obtain zs where 1: "agents b = Some (xs @ zs)" "\<forall>z\<in>set zs. agent_scanner_id z \<in> S"
    by blast
  with assms(2) obtain zs' where 2: "agents c = Some ((xs @ zs) @ zs')" "\<forall>z\<in>set zs'. agent_scanner_id z \<in> S"
    by blast
  have "agents c = Some (xs @ (zs @ zs'))" using 2(1) by simp
  moreover have "\<forall>z\<in>set (zs @ zs'). agent_scanner_id z \<in> S" using 1(2) 2(2) by auto
  ultimately show "\<exists>zs. agents c = Some (xs @ zs) \<and> (\<forall>z\<in>set zs. agent_scanner_id z \<in> S)"
    by blast
qed

lemma load_agents_of_appends:
  assumes "load_agents_of E k sc s = Some (res, s')" and "scanner_id sc \<in> S"
  shows "scanners s' = scanners s \<and>
         (\<forall>xs. agents s = Some xs \<longrightarrow>
            (\<exists>zs. agents s' = Some (xs @ zs) \<and> (\<forall>z\<in>set zs. agent_scanner_id z \<in> S)))"
proof -
  let ?R = "\<lambda>a b. scanners b = scanners a \<and>
         (\<forall>xs. agents a = Some xs \<longrightarrow>
            (\<exists>zs. agents b = Some (xs @ zs) \<and> (\<forall>z\<in>set zs. agent_scanner_id z \<in> S)))"
  have refl: "?R a a" for a :: nessus by simp
  have api: "?R a b" if "api_request E k m t p a = Some (q, b)" for a b m t p q
    using session_step_collections[OF api_request_step[OF that]]
    by (simp add: collections_def)
  have loop: "?R a b" if "for_each (add_agent sc) rs a = Some (q, b)" for rs a b q
    by (rule for_each_rel[where R="?R" and body="add_agent sc" and xs=rs, OF refl _ _ that])
       (erule (1) appends_trans, erule add_agent_appends[OF _ assms(2)])
  show ?thesis
  proof (cases "py_format_d (scanner_id sc)")
    case (Inl e)
    with assms(1) have "s' = s"
      by (simp add: load_agents_of_def liftE_def bindR_def)
    then show ?thesis by simp
  next
    case (Inr d)
    with assms(1) have "bindR (api_request E k ''GET'' (''/scanners/'' @ d @ ''/agents'') JNull s)
        (\<lambda>response s1.
         bindR (liftE (present_not_none ''agents'' response) s1) (\<lambda>present s2.
           if present then
             bindR (liftE (bindE (py_getitem response ''agents'') py_iter) s2) (\<lambda>rs s3.
               for_each (add_agent sc) rs s3)
           else returns () s2)) = Some (res, s')"
      by (simp add: load_agents_of_def liftE_def bindR_def)
    then show ?thesis
    proof (cases rule: bindR_cases)
      case (raised e)
      then show ?thesis using api by blast
    next
      case (returned response s1)
      have 1: "?R s s1" using api[OF returned(1)] .
      from returned(2) have "s' = s1 \<or> (\<exists>rs q. for_each (add_agent sc) rs s1 = Some (q, s'))"
        by (auto simp: bindR_def liftE_def returns_def split: sum.splits if_splits)
      then have 2: "?R s1 s'"
        using loop by auto
      from appends_trans[OF 1 2] show ?thesis .
    qed
  qed
qed


lemma load_agents_appends:
  assumes "load_agents E k s = Some (res, s')" and "agents s = Some xs"
  shows "\<exists>zs. agents s' = Some (xs @ zs) \<and>
              (\<forall>z\<in>set zs. agent_scanner_id z \<in> scanner_id ` set (scanners s))"
proof -
  let ?S = "scanner_id ` set (scanners s)"
  let ?R = "\<lambda>a b. scanners b = scanners a \<and>
         (\<forall>xs. agents a = Some xs \<longrightarrow>
            (\<exists>zs. agents b = Some (xs @ zs) \<and> (\<forall>z\<in>set zs. agent_scanner_id z \<in> ?S)))"
  from assms(1) obtain q where run: "for_each (load_agents_of E k) (scanners s) s = Some (q, s')"
    unfolding load_agents_def by (auto elim!: bindR_cases dest!: returns_state)
  have "?R s s'"
  proof (rule for_each_rel[where R="?R" and body="load_agents_of E k" and xs="scanners s", OF _ _ _ run])
    show "?R a a" for a :: nessus by simp
  next
    show "?R a b \<Longrightarrow> ?R b c \<Longrightarrow> ?R a c" for a b c :: nessus
      by (rule appends_trans)
  next
    fix x a r b assume "x \<in> set (scanners s)" and "load_agents_of E k x a = Some (r, b)"
    then show "?R a b"
      using load_agents_of_appends[of E k x a r b ?S] by blast
  qed
  with assms(2) show ?thesis by blast
qed

text \<open>
  C5, as stated, fails for the template and the folder of a scan: \<^verbatim>\<open>load_scans\<close>
  gives every scan a new \<^verbatim>\<open>Template\<close> and a new \<^verbatim>\<open>Folder\<close> that carry only the
  uuid and the id of the record. On a client whose folders and templates are empty, the
  loaded scan refers to a folder with id 3 and to a template with uuid \<^verbatim>\<open>t-1\<close>, and
  the registry holds neither.
\<close>

theorem scan_references_counterexample:
  "(case load_scans demo_ext (Suc 0) (demo_init [] [Response 200 ''scans 1'']) of
      None \<Rightarrow> False
    | Some (r, s') \<Rightarrow>
        r = Inr True \<and> folders s' = [] \<and> templates s' = [] \<and>
        map_option (map scan_folder) (scans s') = Some [blank_folder\<lparr>folder_id := JNum 3\<rparr>] \<and>
        map_option (map scan_template) (scans s')
          = Some [blank_template\<lparr>template_uuid := JStr ''t-1''\<rparr>])"
  by (simp add: run_defs scan_defs)

text \<open>
  C5, amended: the owner of a hydrated scan, when set, is one of the users that the
  registry holds at that moment, and every agent that \<^verbatim>\<open>load_agents\<close> appends carries
  the id of a scanner that the registry holds. The template and the folder of a scan are
  new instances built from the constructor's defaults and the record's \<^verbatim>\<open>uuid\<close> and
  \<^verbatim>\<open>folder_id\<close>; they are not looked up in the registry.
\<close>

theorem hydrated_references:
  "(api_request E k ''GET'' ''/scans'' (JStr []) s = Some (Inr response, s1) \<and>
    py_getitem response ''scans'' = Inr (JArr rs) \<and> users s = Some us \<and>
    load_scans E k s = Some (Inr b, s') \<longrightarrow>
      (\<exists>ys. scans s' = Some ys \<and> length ys = length rs \<and>
         (\<forall>i<length rs.
            (\<forall>u. scan_owner (ys ! i) = Some u \<longrightarrow> u \<in> set us) \<and>
            (\<exists>v. py_getitem (rs ! i) ''uuid'' = Inr v \<and>
                 scan_template (ys ! i) = (new_Template E)\<lparr>template_uuid := v\<rparr>) \<and>
            (\<exists>v. py_getitem (rs ! i) ''folder_id'' = Inr v \<and>
                 scan_folder (ys ! i) = (new_Folder E)\<lparr>folder_id := v\<rparr>)))) \<and>
   (agents s = Some xs \<and> load_agents E k s = Some (res, s'') \<longrightarrow>
      (\<exists>zs. agents s'' = Some (xs @ zs) \<and>
         (\<forall>z\<in>set zs. \<exists>sc\<in>set (scanners s). agent_scanner_id z = scanner_id sc)))"
proof (intro conjI impI)
  assume a: "api_request E k ''GET'' ''/scans'' (JStr []) s = Some (Inr response, s1) \<and>
    py_getitem response ''scans'' = Inr (JArr rs) \<and> users s = Some us \<and>
    load_scans E k s = Some (Inr b, s')"
  then obtain ys where
    s': "s' = s1\<lparr>scans := Some ys\<rparr>" and h: "list_all2 (hydrated_scan E us) rs ys"
    using load_scans_hydrated[of E k s response s1 rs us b s'] by blast
  have len: "length ys = length rs"
    using h by (simp add: list_all2_lengthD)
  have "(\<forall>u. scan_owner (ys ! i) = Some u \<longrightarrow> u \<in> set us) \<and>
            (\<exists>v. py_getitem (rs ! i) ''uuid'' = Inr v \<and>
                 scan_template (ys ! i) = (new_Template E)\<lparr>template_uuid := v\<rparr>) \<and>
            (\<exists>v. py_getitem (rs ! i) ''folder_id'' = Inr v \<and>
                 scan_folder (ys ! i) = (new_Folder E)\<lparr>folder_id := v\<rparr>)"
    if i: "i < length rs" for i
  proof -
    from h i have hs: "hydrated_scan E us (rs ! i) (ys ! i)"
      by (simp add: list_all2_nthD)
    have "u \<in> set us" if "scan_owner (ys ! i) = Some u" for u
      using hydrated_scan_owner[OF hs] that resolve_owner_mem[of us "rs ! i" None u] by simp
    then show ?thesis
      using hydrated_scan_stubs[OF hs] by blast
  qed
  with s' len show "\<exists>ys. scans s' = Some ys \<and> length ys = length rs \<and>
         (\<forall>i<length rs.
            (\<forall>u. scan_owner (ys ! i) = Some u \<longrightarrow> u \<in> set us) \<and>
            (\<exists>v. py_getitem (rs ! i) ''uuid'' = Inr v \<and>
                 scan_template (ys ! i) = (new_Template E)\<lparr>template_uuid := v\<rparr>) \<and>
            (\<exists>v. py_getitem (rs ! i) ''folder_id'' = Inr v \<and>
                 scan_folder (ys ! i) = (new_Folder E)\<lparr>folder_id := v\<rparr>))"
    by auto
next
  assume "agents s = Some xs \<and> load_agents E k s = Some (res, s'')"
  then show "\<exists>zs. agents s'' = Some (xs @ zs) \<and>
         (\<forall>z\<in>set zs. \<exists>sc\<in>set (scanners s). agent_scanner_id z = scanner_id sc)"
    using load_agents_appends[of E k s res s'' xs] by (auto simp: image_iff)
qed

theorem hydrated_references_witness:
  "(\<exists>s1 s'. api_request demo_ext (Suc 0) ''GET'' ''/scans'' (JStr [])
               ((demo_init [] [Response 200 ''scans 1''])\<lparr>users := Some [user_7]\<rparr>)
             = Some (Inr (JObj [(''scans'', JArr [scan_record 1 3 7])]), s1) \<and>
           py_getitem (JObj [(''scans'', JArr [scan_record 1 3 7])]) ''scans''
             = Inr (JArr [scan_record 1 3 7]) \<and>
           users ((demo_init [] [Response 200 ''scans 1''])\<lparr>users := Some [user_7]\<rparr>)
             = Some [user_7] \<and>
           load_scans demo_ext (Suc 0)
               ((demo_init [] [Response 200 ''scans 1''])\<lparr>users := Some [user_7]\<rparr>)
             = Some (Inr True, s') \<and>
           (\<exists>ys. scans s' = Some ys \<and> length ys = 1 \<and>
              (\<forall>u. scan_owner (ys ! 0) = Some u \<longrightarrow> u \<in> set [user_7]) \<and>
              scan_template (ys ! 0) = (new_Template demo_ext)\<lparr>template_uuid := JStr ''t-1''\<rparr> \<and>
              scan_folder (ys ! 0) = (new_Folder demo_ext)\<lparr>folder_id := JNum 3\<rparr>)) \<and>
   agents ((demo_init [] [Response 200 ''agents 10''])\<lparr>scanners := [scanner_1]\<rparr>) = Some [] \<and>
   (\<exists>s''. load_agents demo_ext (Suc 0)
             ((demo_init [] [Response 200 ''agents 10''])\<lparr>scanners := [scanner_1]\<rparr>)
           = Some (Inr True, s'') \<and>
          (\<exists>zs. agents s'' = Some ([] @ zs) \<and>
             (\<forall>z\<in>set zs. \<exists>sc\<in>set [scanner_1]. agent_scanner_id z = scanner_id sc)))"
proof -
  let ?s = "(demo_init [] [Response 200 ''scans 1''])\<lparr>users := Some [user_7]\<rparr>"
  let ?t = "(demo_init [] [Response 200 ''agents 10''])\<lparr>scanners := [scanner_1]\<rparr>"
  let ?rs = "[scan_record 1 3 7]"
  obtain s1 where api: "api_request demo_ext (Suc 0) ''GET'' ''/scans'' (JStr []) ?s
          = Some (Inr (JObj [(''scans'', JArr ?rs)]), s1)"
    by (simp add: run_defs)
  have rs: "py_getitem (JObj [(''scans'', JArr ?rs)]) ''scans'' = Inr (JArr ?rs)"
    by simp
  have us: "users ?s = Some [user_7]"
    by simp
  obtain s' where ok: "load_scans demo_ext (Suc 0) ?s = Some (Inr True, s')"
    by (simp add: run_defs scan_defs)
  have uuid: "py_getitem (?rs ! 0) ''uuid'' = Inr (JStr ''t-1'')"
    and fid: "py_getitem (?rs ! 0) ''folder_id'' = Inr (JNum 3)"
    by (simp_all add: scan_record_def)
  from hydrated_references[of demo_ext "Suc 0" ?s "JObj [(''scans'', JArr ?rs)]" s1 ?rs "[user_7]"
         True s' "[]" "Inr True"] api rs us ok
  obtain ys where ys: "scans s' = Some ys" "length ys = length ?rs"
    "\<forall>i<length ?rs.
            (\<forall>u. scan_owner (ys ! i) = Some u \<longrightarrow> u \<in> set [user_7]) \<and>
            (\<exists>v. py_getitem (?rs ! i) ''uuid'' = Inr v \<and>
                 scan_template (ys ! i) = (new_Template demo_ext)\<lparr>template_uuid := v\<rparr>) \<and>
            (\<exists>v. py_getitem (?rs ! i) ''folder_id'' = Inr v \<and>
                 scan_folder (ys ! i) = (new_Folder demo_ext)\<lparr>folder_id := v\<rparr>)"
    by blast
  from ys(3) uuid fid have y0:
    "(\<forall>u. scan_owner (ys ! 0) = Some u \<longrightarrow> u \<in> set [user_7]) \<and>
     scan_template (ys ! 0) = (new_Template demo_ext)\<lparr>template_uuid := JStr ''t-1''\<rparr> \<and>
     scan_folder (ys ! 0) = (new_Folder demo_ext)\<lparr>folder_id := JNum 3\<rparr>"
    by fastforce
  have ag: "agents ?t = Some []"
    by (simp add: demo_init_def init_def)
  obtain s'' where la: "load_agents demo_ext (Suc 0) ?t = Some (Inr True, s'')"
    by (simp add: run_defs load_defs scanner_1_def)
  from hydrated_references[of demo_ext "Suc 0" ?t _ _ _ _ _ _ "[]" "Inr True" s''] ag la
  obtain zs where zs: "agents s'' = Some ([] @ zs)"
    "\<forall>z\<in>set zs. \<exists>sc\<in>set (scanners ?t). agent_scanner_id z = scanner_id sc"
    by blast
  from zs(2) have "\<forall>z\<in>set zs. \<exists>sc\<in>set [scanner_1]. agent_scanner_id z = scanner_id sc"
    by simp
  with api rs us ok ys(1,2) y0 ag la zs(1) show ?thesis
    by (intro conjI exI[of _ s1] exI[of _ s'] exI[of _ s''] exI[of _ ys] exI[of _ zs]) simp_all
qed

section \<open>Loading everything\<close>

text \<open>
  C10: \<^verbatim>\<open>load\<close> runs the loads of the properties, the mail settings, the proxy
  settings, the scanners, the agents, the agent groups, the policies, the scans, the
  folders, the templates and the users, in this order, each from the state that the one
  before left. It returns exactly when all of them return, and then its result is the
  conjunction of theirs. It raises exactly when one of them raises after the earlier ones
  returned, and the state is then the one in which that load raised: what the earlier loads
  stored is not taken back.
\<close>

theorem load_runs_in_order:
  "(load E k s = Some (Inr b, s') \<longleftrightarrow>
      (\<exists>b1 s1 b2 s2 b3 s3 b4 s4 b5 s5 b6 s6 b7 s7 b8 s8 b9 s9 b10 s10 b11.
        load_properties E k s = Some (Inr b1, s1) \<and>
        load_mail E s1 = Some (Inr b2, s2) \<and>
        load_proxy E s2 = Some (Inr b3, s3) \<and>
        load_scanners E k s3 = Some (Inr b4, s4) \<and>
        load_agents E k s4 = Some (Inr b5, s5) \<and>
        load_agentgroups E k s5 = Some (Inr b6, s6) \<and>
        load_policies E k s6 = Some (Inr b7, s7) \<and>
        load_scans E k s7 = Some (Inr b8, s8) \<and>
        load_folders E k s8 = Some (Inr b9, s9) \<and>
        load_templates E k s9 = Some (Inr b10, s10) \<and>
        load_users E k s10 = Some (Inr b11, s') \<and>
        b = (b1 \<and> b2 \<and> b3 \<and> b4 \<and> b5 \<and> b6 \<and> b7 \<and> b8 \<and> b9 \<and> b10 \<and> b11))) \<and>
   (load E k s = Some (Inl e, s') \<longleftrightarrow>
      (load_properties E k s = Some (Inl e, s') \<or>
        (\<exists>b1 s1. load_properties E k s = Some (Inr b1, s1) \<and>
          (load_mail E s1 = Some (Inl e, s') \<or>
          (\<exists>b2 s2. load_mail E s1 = Some (Inr b2, s2) \<and>
            (load_proxy E s2 = Some (Inl e, s') \<or>
            (\<exists>b3 s3. load_proxy E s2 = Some (Inr b3, s3) \<and>
              (load_scanners E k s3 = Some (Inl e, s') \<or>
              (\<exists>b4 s4. load_scanners E k s3 = Some (Inr b4, s4) \<and>
                (load_agents E k s4 = Some (Inl e, s') \<or>
                (\<exists>b5 s5. load_agents E k s4 = Some (Inr b5, s5) \<and>
                  (load_agentgroups E k s5 = Some (Inl e, s') \<or>
                  (\<exists>b6 s6. load_agentgroups E k s5 = Some (Inr b6, s6) \<and>
                    (load_policies E k s6 = Some (Inl e, s') \<or>
                    (\<exists>b7 s7. load_policies E k s6 = Some (Inr b7, s7) \<and>
                      (load_scans E k s7 = Some (Inl e, s') \<or>
                      (\<exists>b8 s8. load_scans E k s7 = Some (Inr b8, s8) \<and>
                        (load_folders E k s8 = Some (Inl e, s') \<or>
                        (\<exists>b9 s9. load_folders E k s8 = Some (Inr b9, s9) \<and>
                          (load_templates E k s9 = Some (Inl e, s') \<or>
                          (\<exists>b10 s10. load_templates E k s9 = Some (Inr b10, s10) \<and>
                            (load_users E k s10 = Some (Inl e, s')))))))))))))))))))))))"
  unfolding load_def bindR_def returns_def
  by (auto split: option.splits sum.splits prod.splits)

theorem load_runs_in_order_witness:
  "\<exists>s'. load demo_ext (Suc 0) (demo_init [] demo_load_responses) = Some (Inr True, s') \<and>
      (\<exists>b1 s1 b2 s2 b3 s3 b4 s4 b5 s5 b6 s6 b7 s7 b8 s8 b9 s9 b10 s10 b11.
          load_properties demo_ext (Suc 0) (demo_init [] demo_load_responses) = Some (Inr b1, s1) \<and>
          load_mail demo_ext s1 = Some (Inr b2, s2) \<and>
          load_proxy demo_ext s2 = Some (Inr b3, s3) \<and>
          load_scanners demo_ext (Suc 0) s3 = Some (Inr b4, s4) \<and>
          load_agents demo_ext (Suc 0) s4 = Some (Inr b5, s5) \<and>
          load_agentgroups demo_ext (Suc 0) s5 = Some (Inr b6, s6) \<and>
          load_policies demo_ext (Suc 0) s6 = Some (Inr b7, s7) \<and>
          load_scans demo_ext (Suc 0) s7 = Some (Inr b8, s8) \<and>
          load_folders demo_ext (Suc 0) s8 = Some (Inr b9, s9) \<and>
          load_templates demo_ext (Suc 0) s9 = Some (Inr b10, s10) \<and>
          load_users demo_ext (Suc 0) s10 = Some (Inr b11, s') \<and>
          True = (b1 \<and> b2 \<and> b3 \<and> b4 \<and> b5 \<and> b6 \<and> b7 \<and> b8 \<and> b9 \<and> b10 \<and> b11))"
proof -
  obtain s' where run: "load demo_ext (Suc 0) (demo_init [] demo_load_responses) = Some (Inr True, s')"
    by (simp add: load_def load_properties_def load_mail_def load_proxy_def load_agentgroups_def
          load_policies_def load_folders_def load_templates_def load_users_def
          properties_record_def demo_load_responses_def load_scans_def run_defs load_defs)
  note chain = load_runs_in_order[of demo_ext "Suc 0" "demo_init [] demo_load_responses" True s',
      THEN conjunct1, THEN iffD1, OF run]
  show ?thesis
    by (rule exI[of _ s']) (rule conjI[OF run chain])
qed

section \<open>Logging in and out\<close>



lemmas session_defs = login_def login_with_def server_version_with_def server_version_property_def
  logout_def demo_user_def blank_user_def




text \<open>
  C3, as stated, fails: \<^verbatim>\<open>logout\<close> clears nothing. After a login that stored the
  token \<^verbatim>\<open>abc\<close> and a logout, the header and the user still hold the token, and the
  next request is sent with it and returns the server's answer.
\<close>

theorem logout_keeps_token_counterexample:
  "(case login demo_ext (Suc 0) (Some demo_user)
           (demo_init [] [Response 200 ''nessus6'', Response 200 ''token'', Response 200 [],
                          Response 200 ''scans 1'']) of
      None \<Rightarrow> False
    | Some (r1, s1) \<Rightarrow>
        r1 = Inr True \<and> headers s1 ''X-Cookie'' = Some ''token=abc'' \<and>
        (case logout demo_ext (Suc 0) s1 of
           None \<Rightarrow> False
         | Some (r2, s2) \<Rightarrow>
             r2 = Inr True \<and> headers s2 ''X-Cookie'' = Some ''token=abc'' \<and>
             map_option user_token (user s2) = Some (JStr ''abc'') \<and>
             (case api_request demo_ext (Suc 0) ''GET'' ''/scans'' (JStr []) s2 of
                None \<Rightarrow> False
              | Some (r3, s3) \<Rightarrow>
                  r3 = Inr (JObj [(''scans'', JArr [scan_record 1 3 7])]) \<and>
                  map req_target (sent s3) = [''/nessus6.html'', ''/session'', ''/session'', ''/scans''] \<and>
                  map (\<lambda>q. req_headers q ''X-Cookie'') (sent s3)
                    = [None, None, Some ''token=abc'', Some ''token=abc''])))"
  by (simp add: run_defs session_defs)

text \<open>
  C3, amended: \<^verbatim>\<open>logout\<close> sends \<^verbatim>\<open>DELETE /session\<close> with the stored headers,
  returns \<^verbatim>\<open>True\<close> when it returns, and removes no header; when the connection
  accepts the request, the headers and the user, token included, are left as they were.
  Every later request is sent with the stored headers.
\<close>

theorem logout_keeps_token:
  "(logout E k s = Some (r, s') \<longrightarrow>
      dom (headers s) \<subseteq> dom (headers s') \<and>
      (\<exists>rest. sent s' = sent s @
         \<lparr>req_method = ''DELETE'', req_target = ''/session'', req_body = JArr [],
          req_headers = headers s\<rparr> # rest)) \<and>
   (logout E (Suc k) s = Some (r, s') \<and> send_script s (length (sent s)) = SendOk \<longrightarrow>
      headers s' = headers s \<and> user s' = user s) \<and>
   (request E k m t p None s' = Some (r2, s2) \<longrightarrow>
      (\<exists>rest. sent s2 = sent s' @
         \<lparr>req_method = m, req_target = t, req_body = p, req_headers = headers s'\<rparr> # rest)) \<and>
   (logout E k s = Some (Inr v, s') \<longrightarrow> v = True)"
proof (intro conjI impI)
  assume a: "logout E k s = Some (r, s')"
  then obtain q where q: "request E k ''DELETE'' ''/session'' (JArr []) None s = Some (q, s')"
    unfolding logout_def by (auto elim!: bindR_cases dest!: returns_state)
  from request_step[OF q] show "dom (headers s) \<subseteq> dom (headers s')"
    by (rule session_step_headers)
  from request_sent_first[OF q] show "\<exists>rest. sent s' = sent s @
         \<lparr>req_method = ''DELETE'', req_target = ''/session'', req_body = JArr [],
          req_headers = headers s\<rparr> # rest"
    by simp
next
  assume "logout E (Suc k) s = Some (r, s') \<and> send_script s (length (sent s)) = SendOk"
  then show "headers s' = headers s" and "user s' = user s"
    by (auto simp: logout_def bindR_def returns_def raises_def getresponse_def Let_def
             split: get_outcome.splits if_splits option.splits)
next
  assume "request E k m t p None s' = Some (r2, s2)"
  from request_sent_first[OF this] show "\<exists>rest. sent s2 = sent s' @
         \<lparr>req_method = m, req_target = t, req_body = p, req_headers = headers s'\<rparr> # rest"
    by simp
next
  assume "logout E k s = Some (Inr v, s')"
  then show "v = True"
    unfolding logout_def by (auto elim!: bindR_cases dest!: returns_state)
qed

theorem logout_keeps_token_witness:
  "\<exists>s'. logout demo_ext (Suc 0)
           ((demo_init [] [])\<lparr>headers := (headers (demo_init [] []))(''X-Cookie'' \<mapsto> ''token=abc'')\<rparr>)
         = Some (Inr True, s') \<and>
        headers s' ''X-Cookie'' = Some ''token=abc'' \<and>
        (\<exists>r2 s2 rest. request demo_ext (Suc 0) ''GET'' ''/scans'' (JStr []) None s' = Some (r2, s2) \<and>
           sent s2 = sent s' @
             \<lparr>req_method = ''GET'', req_target = ''/scans'', req_body = JStr [],
              req_headers = headers s'\<rparr> # rest)"
proof -
  let ?s = "(demo_init [] [])\<lparr>headers := (headers (demo_init [] []))(''X-Cookie'' \<mapsto> ''token=abc'')\<rparr>"
  have "\<exists>s'. logout demo_ext (Suc 0) ?s = Some (Inr True, s') \<and>
          (\<exists>r2 s2. request demo_ext (Suc 0) ''GET'' ''/scans'' (JStr []) None s' = Some (r2, s2))"
    by (simp add: run_defs session_defs)
  then obtain s' r2 s2 where lo: "logout demo_ext (Suc 0) ?s = Some (Inr True, s')"
    and rq: "request demo_ext (Suc 0) ''GET'' ''/scans'' (JStr []) None s' = Some (r2, s2)"
    by (elim exE conjE)
  have ok: "send_script ?s (length (sent ?s)) = SendOk"
    by (simp add: demo_init_def init_def script_def)
  note inst0 = logout_keeps_token[where E=demo_ext and k=0 and s="?s" and r="Inr True"
      and s'=s', THEN conjunct2, THEN conjunct1]
  note inst1 = logout_keeps_token[where E=demo_ext and k="Suc 0" and s'=s' and m="''GET''"
      and t="''/scans''" and p="JStr []" and ?r2.0=r2 and ?s2.0=s2, THEN conjunct2, THEN conjunct2, THEN conjunct1]
  have h: "headers s' = headers ?s"
    using inst0 lo ok by simp
  then have c: "headers s' ''X-Cookie'' = Some ''token=abc''"
    by simp
  from inst1 rq obtain rest where "sent s2 = sent s' @
             \<lparr>req_method = ''GET'', req_target = ''/scans'', req_body = JStr [],
              req_headers = headers s'\<rparr> # rest"
    by (elim impE exE)
  with lo c rq show ?thesis
    by (intro exI[of _ s'] exI[of _ r2] exI[of _ s2] exI[of _ rest] conjI)
qed

section \<open>Recovery from a stale connection\<close>








end
